theory Spec2Isabelle
  imports Main "HOL-Library.AList"
begin

section \<open>Python values and the object store\<close>

text \<open>
  The configuration handled by \<^verbatim>\<open>cc_yaml/yaml_parser.py\<close> is what a YAML loader returns:
  nested Python dictionaries and lists with scalar leaves. Dictionaries and lists are
  mutable objects that are passed by reference, so they live in a store and a value only
  holds their address (\<open>PRef\<close>). Immutable values (\<open>None\<close>, booleans, integers, text,
  tuples) are held directly. Floating point numbers are left out of the value type; no
  statement of the two modelled functions looks at one.
\<close>

type_synonym addr = nat

datatype pyval =
    PNone
  | PBool bool
  | PInt int
  | PStr string
  | PTuple "pyval list"
  | PRef addr

datatype pyobj =
    OList "pyval list"
  | ODict "(pyval \<times> pyval) list"

type_synonym store = "pyobj list"

text \<open>
  Exceptions are values. \<open>ExternalError\<close> stands for whatever the collaborators of the module
  raise (file system, YAML loader, importer). \<open>Unmodelled\<close> marks the places where the model
  stops following Python: a reference to an address outside the store (which Python cannot
  build) and two statements of \<^verbatim>\<open>get_checker_class\<close> applied to values that
  \<^verbatim>\<open>validate_config\<close> has already excluded (see \<open>format_method_name\<close> and \<open>py_items\<close>).
\<close>

datatype py_error =
    ValueError string
  | TypeError string
  | KeyError string
  | AttributeError string
  | ExternalError string
  | Unmodelled

datatype pytype = TNoneType | TBool | TInt | TStr | TTuple | TList | TDict

definition deref :: "store \<Rightarrow> addr \<Rightarrow> pyobj option" where
  "deref h a = (if a < length h then Some (h ! a) else None)"

definition alloc :: "store \<Rightarrow> pyobj \<Rightarrow> addr \<times> store" where
  "alloc h obj = (length h, h @ [obj])"

subsection \<open>Dictionaries\<close>

text \<open>
  A dictionary object is its list of items in insertion order. Keys are compared the way
  Python compares hashable values: \<open>True == 1\<close> and \<open>False == 0\<close>, also inside tuples.
  Assignment to an existing key keeps the key object and the position and replaces the value;
  a new key is appended.
\<close>

fun norm_key :: "pyval \<Rightarrow> pyval" where
  "norm_key (PBool b) = PInt (if b then 1 else 0)"
| "norm_key (PTuple xs) = PTuple (map norm_key xs)"
| "norm_key v = v"

definition key_eq :: "pyval \<Rightarrow> pyval \<Rightarrow> bool" where
  "key_eq a b = (norm_key a = norm_key b)"

fun dict_get :: "(pyval \<times> pyval) list \<Rightarrow> pyval \<Rightarrow> pyval option" where
  "dict_get [] k = None"
| "dict_get ((k', v) # kvs) k = (if key_eq k' k then Some v else dict_get kvs k)"

fun dict_set :: "(pyval \<times> pyval) list \<Rightarrow> pyval \<Rightarrow> pyval \<Rightarrow> (pyval \<times> pyval) list" where
  "dict_set [] k v = [(k, v)]"
| "dict_set ((k', v') # kvs) k v =
     (if key_eq k' k then (k', v) # kvs else (k', v') # dict_set kvs k v)"

text \<open>\<^verbatim>\<open>d.update(other)\<close> for a dictionary \<open>other\<close>: every item of \<open>other\<close> is assigned, in order.\<close>

definition dict_update :: "(pyval \<times> pyval) list \<Rightarrow> (pyval \<times> pyval) list \<Rightarrow> (pyval \<times> pyval) list" where
  "dict_update d other = fold (\<lambda>(k, v) acc. dict_set acc k v) other d"

subsection \<open>The operators the module applies to configuration values\<close>

fun starts_with :: "string \<Rightarrow> string \<Rightarrow> bool" where
  "starts_with [] s = True"
| "starts_with (c # cs) [] = False"
| "starts_with (c # cs) (d # ds) = (c = d \<and> starts_with cs ds)"

fun str_contains :: "string \<Rightarrow> string \<Rightarrow> bool" where
  "str_contains sub [] = (sub = [])"
| "str_contains sub (d # ds) = (starts_with sub (d # ds) \<or> str_contains sub ds)"

text \<open>
  \<^verbatim>\<open>key in d\<close> for a text \<open>key\<close>: key lookup in a dictionary, element search in a list or
  tuple (only the text \<open>key\<close> itself is equal to \<open>key\<close>), substring search in a text, and a
  \<^verbatim>\<open>TypeError\<close> for \<open>None\<close>, booleans and integers.
\<close>

definition py_contains :: "store \<Rightarrow> string \<Rightarrow> pyval \<Rightarrow> py_error + bool" where
  "py_contains h key d =
     (case d of
        PRef a \<Rightarrow>
          (case deref h a of
             None \<Rightarrow> Inl Unmodelled
           | Some (ODict kvs) \<Rightarrow> Inr (dict_get kvs (PStr key) \<noteq> None)
           | Some (OList xs) \<Rightarrow> Inr (PStr key \<in> set xs))
      | PStr s \<Rightarrow> Inr (str_contains key s)
      | PTuple xs \<Rightarrow> Inr (PStr key \<in> set xs)
      | _ \<Rightarrow> Inl (TypeError ''argument is not iterable''))"

text \<open>
  \<^verbatim>\<open>d[key]\<close> for a text \<open>key\<close>: the value stored in a dictionary or \<^verbatim>\<open>KeyError\<close>; every other
  value rejects a text subscript with \<^verbatim>\<open>TypeError\<close>.
\<close>

definition py_getitem :: "store \<Rightarrow> pyval \<Rightarrow> string \<Rightarrow> py_error + pyval" where
  "py_getitem h d key =
     (case d of
        PRef a \<Rightarrow>
          (case deref h a of
             None \<Rightarrow> Inl Unmodelled
           | Some (ODict kvs) \<Rightarrow>
               (case dict_get kvs (PStr key) of
                  None \<Rightarrow> Inl (KeyError key)
                | Some v \<Rightarrow> Inr v)
           | Some (OList xs) \<Rightarrow> Inl (TypeError ''list indices must be integers or slices, not str''))
      | PStr s \<Rightarrow> Inl (TypeError ''string indices must be integers'')
      | PTuple xs \<Rightarrow> Inl (TypeError ''tuple indices must be integers or slices, not str'')
      | _ \<Rightarrow> Inl (TypeError ''object is not subscriptable''))"

definition py_class :: "store \<Rightarrow> pyval \<Rightarrow> py_error + pytype" where
  "py_class h v =
     (case v of
        PNone \<Rightarrow> Inr TNoneType
      | PBool b \<Rightarrow> Inr TBool
      | PInt i \<Rightarrow> Inr TInt
      | PStr s \<Rightarrow> Inr TStr
      | PTuple xs \<Rightarrow> Inr TTuple
      | PRef a \<Rightarrow>
          (case deref h a of
             None \<Rightarrow> Inl Unmodelled
           | Some (OList xs) \<Rightarrow> Inr TList
           | Some (ODict kvs) \<Rightarrow> Inr TDict))"

text \<open>\<^verbatim>\<open>isinstance(v, t)\<close>; \<^verbatim>\<open>bool\<close> is a subclass of \<^verbatim>\<open>int\<close>.\<close>

definition py_isinstance :: "store \<Rightarrow> pyval \<Rightarrow> pytype \<Rightarrow> py_error + bool" where
  "py_isinstance h v t =
     (case py_class h v of
        Inl e \<Rightarrow> Inl e
      | Inr c \<Rightarrow> Inr (c = t \<or> (c = TBool \<and> t = TInt)))"

text \<open>Iteration (\<^verbatim>\<open>for x in v\<close>) and \<^verbatim>\<open>len(v)\<close>.\<close>

definition py_iter :: "store \<Rightarrow> pyval \<Rightarrow> py_error + pyval list" where
  "py_iter h v =
     (case v of
        PRef a \<Rightarrow>
          (case deref h a of
             None \<Rightarrow> Inl Unmodelled
           | Some (OList xs) \<Rightarrow> Inr xs
           | Some (ODict kvs) \<Rightarrow> Inr (map fst kvs))
      | PStr s \<Rightarrow> Inr (map (\<lambda>c. PStr [c]) s)
      | PTuple xs \<Rightarrow> Inr xs
      | _ \<Rightarrow> Inl (TypeError ''object is not iterable''))"

definition py_len :: "store \<Rightarrow> pyval \<Rightarrow> py_error + nat" where
  "py_len h v =
     (case v of
        PRef a \<Rightarrow>
          (case deref h a of
             None \<Rightarrow> Inl Unmodelled
           | Some (OList xs) \<Rightarrow> Inr (length xs)
           | Some (ODict kvs) \<Rightarrow> Inr (length kvs))
      | PStr s \<Rightarrow> Inr (length s)
      | PTuple xs \<Rightarrow> Inr (length xs)
      | _ \<Rightarrow> Inl (TypeError ''object has no len()''))"

definition type_name :: "pytype \<Rightarrow> string" where
  "type_name t =
     (case t of
        TNoneType \<Rightarrow> ''NoneType'' | TBool \<Rightarrow> ''bool'' | TInt \<Rightarrow> ''int'' | TStr \<Rightarrow> ''str''
      | TTuple \<Rightarrow> ''tuple'' | TList \<Rightarrow> ''list'' | TDict \<Rightarrow> ''dict'')"

section \<open>Config Validator (\<^verbatim>\<open>YamlParser.validate_field\<close>, \<^verbatim>\<open>YamlParser.validate_config\<close>)\<close>

definition quote :: "string \<Rightarrow> string" where
  "quote s = [CHR 0x27] @ s @ [CHR 0x27]"

definition msg_required :: "string \<Rightarrow> string" where
  "msg_required key = ''Required key '' @ quote key @ '' not present''"

definition msg_wrong_type :: "string \<Rightarrow> pytype \<Rightarrow> string" where
  "msg_wrong_type key t =
     ''Value for field '' @ quote key @ '' is not of type '' @ quote (type_name t)"

text \<open>
  \<^verbatim>\<open>validate_field(key, val_type, d, required)\<close>. The first \<^verbatim>\<open>if\<close> evaluates
  \<^verbatim>\<open>key not in d\<close> only when \<open>required\<close> holds; the second evaluates \<^verbatim>\<open>key in d\<close> again and
  reads \<^verbatim>\<open>d[key]\<close> only when the key is there.
\<close>

definition validate_field :: "store \<Rightarrow> string \<Rightarrow> pytype \<Rightarrow> pyval \<Rightarrow> bool \<Rightarrow> py_error + unit" where
  "validate_field h key val_type d required =
     (case (if required then py_contains h key d else Inr True) of
        Inl e \<Rightarrow> Inl e
      | Inr present \<Rightarrow>
          if required \<and> \<not> present then Inl (ValueError (msg_required key))
          else
            (case py_contains h key d of
               Inl e \<Rightarrow> Inl e
             | Inr False \<Rightarrow> Inr ()
             | Inr True \<Rightarrow>
                 (case py_getitem h d key of
                    Inl e \<Rightarrow> Inl e
                  | Inr v \<Rightarrow>
                      (case py_isinstance h v val_type of
                         Inl e \<Rightarrow> Inl e
                       | Inr True \<Rightarrow> Inr ()
                       | Inr False \<Rightarrow> Inl (TypeError (msg_wrong_type key val_type))))))"

text \<open>
  \<^verbatim>\<open>for f_name, f_type in fields.items(): cls.validate_field(f_name, f_type, d, required)\<close>:
  the items are visited in the order in which the dictionary literal lists them, and the
  first exception ends the loop.
\<close>

fun validate_fields :: "store \<Rightarrow> (string \<times> pytype) list \<Rightarrow> pyval \<Rightarrow> bool \<Rightarrow> py_error + unit" where
  "validate_fields h [] d required = Inr ()"
| "validate_fields h ((f_name, f_type) # fs) d required =
     (case validate_field h f_name f_type d required of
        Inl e \<Rightarrow> Inl e
      | Inr u \<Rightarrow> validate_fields h fs d required)"

definition required_global :: "(string \<times> pytype) list" where
  "required_global = [(''checks'', TList), (''suite_name'', TStr)]"

definition required_percheck :: "(string \<times> pytype) list" where
  "required_percheck = [(''check_id'', TStr), (''parameters'', TDict), (''check_name'', TStr)]"

definition optional_percheck :: "(string \<times> pytype) list" where
  "optional_percheck = [(''check_level'', TStr)]"

definition allowed_levels :: "string list" where
  "allowed_levels = [''HIGH'', ''MEDIUM'', ''LOW'']"

definition msg_check_level :: string where
  "msg_check_level = ''Check level must be one of HIGH, MEDIUM, LOW''"

definition msg_empty_checks :: string where
  "msg_empty_checks = ''List of checks cannot be empty''"

text \<open>
  Lines 102 to 104: \<^verbatim>\<open>"check_level" in check_info and check_info["check_level"] not in allowed_levels\<close>.
  A value is equal to one of the three texts only if it is that text.
\<close>

definition validate_level :: "store \<Rightarrow> pyval \<Rightarrow> py_error + unit" where
  "validate_level h check_info =
     (case py_contains h ''check_level'' check_info of
        Inl e \<Rightarrow> Inl e
      | Inr False \<Rightarrow> Inr ()
      | Inr True \<Rightarrow>
          (case py_getitem h check_info ''check_level'' of
             Inl e \<Rightarrow> Inl e
           | Inr v \<Rightarrow>
               if v \<notin> set (map PStr allowed_levels) then Inl (ValueError msg_check_level)
               else Inr ()))"

text \<open>The body of the loop over \<^verbatim>\<open>config["checks"]\<close> (lines 96 to 104).\<close>

definition validate_check_info :: "store \<Rightarrow> pyval \<Rightarrow> py_error + unit" where
  "validate_check_info h check_info =
     (case validate_fields h required_percheck check_info True of
        Inl e \<Rightarrow> Inl e
      | Inr u \<Rightarrow>
          (case validate_fields h optional_percheck check_info False of
             Inl e \<Rightarrow> Inl e
           | Inr u \<Rightarrow> validate_level h check_info))"

fun validate_checks :: "store \<Rightarrow> pyval list \<Rightarrow> py_error + unit" where
  "validate_checks h [] = Inr ()"
| "validate_checks h (check_info # rest) =
     (case validate_check_info h check_info of
        Inl e \<Rightarrow> Inl e
      | Inr u \<Rightarrow> validate_checks h rest)"

text \<open>
  \<^verbatim>\<open>validate_config(config)\<close>. The function only reads: membership tests, subscripts,
  \<^verbatim>\<open>isinstance\<close>, iteration and \<^verbatim>\<open>len\<close>. It takes the store and returns no new one.
\<close>

definition validate_config :: "store \<Rightarrow> pyval \<Rightarrow> py_error + unit" where
  "validate_config h config =
     (case validate_fields h required_global config True of
        Inl e \<Rightarrow> Inl e
      | Inr u \<Rightarrow>
          (case py_getitem h config ''checks'' of
             Inl e \<Rightarrow> Inl e
           | Inr checks \<Rightarrow>
               (case py_iter h checks of
                  Inl e \<Rightarrow> Inl e
                | Inr entries \<Rightarrow>
                    (case validate_checks h entries of
                       Inl e \<Rightarrow> Inl e
                     | Inr u \<Rightarrow>
                         (case py_len h checks of
                            Inl e \<Rightarrow> Inl e
                          | Inr n \<Rightarrow>
                              if n = 0 then Inl (ValueError msg_empty_checks)
                              else Inr ())))))"

section \<open>Suite Assembler (\<^verbatim>\<open>YamlParser.get_checker_class\<close>)\<close>

subsection \<open>Check implementations, instances and the generated class\<close>

text \<open>
  A check implementation is a class found by the importer. The assembler reads three class
  attributes of it: \<^verbatim>\<open>defaults\<close> (a dictionary), \<^verbatim>\<open>required_parameters\<close> (a dictionary
  from parameter names to types, which the class may lack: \<^verbatim>\<open>hasattr\<close>) and
  \<^verbatim>\<open>supported_ds\<close> (a list of dataset types, of any type \<open>'ds\<close> with equality). The
  assembler reads these attributes and never assigns to them or calls a method that writes
  them (\<^verbatim>\<open>check_cls.defaults\<close> is the argument of \<^verbatim>\<open>update\<close>, not its target), so they are
  fields of the record rather than objects of the store. The \<^verbatim>\<open>do_check\<close> method sees the
  instance's state and the store at the time of the call.
\<close>

record ('ds, 'd, 'r) check_cls =
  defaults :: "(pyval \<times> pyval) list"
  required_parameters :: "(string \<times> pytype) list option"
  supported_ds :: "'ds list"
  do_check :: "store \<Rightarrow> pyval \<Rightarrow> pyval \<Rightarrow> 'd \<Rightarrow> 'r"

text \<open>
  Modelled from the spec: the constructor \<^verbatim>\<open>check_cls(params, level=level_str)\<close> belongs to
  the base class of the check library, which is not part of this repository. Following the
  spec (``a constructor accepting (merged parameters, severity level)'', ``Resolved check
  instance: owns merged parameters and severity level''), an instance keeps its class, the
  reference to the parameter dictionary it was given (\<^verbatim>\<open>self.kwargs\<close> in
  \<^verbatim>\<open>cc_yaml/tests.py\<close>) and the level, and the constructor has no other effect.
\<close>

record ('ds, 'd, 'r) check_instance =
  inst_class :: "('ds, 'd, 'r) check_cls"
  kwargs :: pyval
  level :: pyval

definition instance_do_check :: "('ds, 'd, 'r) check_instance \<Rightarrow> store \<Rightarrow> 'd \<Rightarrow> 'r" where
  "instance_do_check c h ds = do_check (inst_class c) h (kwargs c) (level c) ds"

text \<open>
  \<^verbatim>\<open>class_properties\<close> maps attribute names to the function \<^verbatim>\<open>inner\<close> of one iteration or to
  the \<^verbatim>\<open>supported_ds\<close> list. \<^verbatim>\<open>inner(self, ds, c=check_instance)\<close> evaluates its default
  argument when the \<^verbatim>\<open>def\<close> statement runs, so the function value holds the instance itself.
  Its \<^verbatim>\<open>__name__\<close> is the key it is stored under.
\<close>

datatype ('ds, 'd, 'r) class_property =
    Method "('ds, 'd, 'r) check_instance"
  | Attribute "'ds list"

record ('ds, 'd, 'r) checker_class =
  cls_name :: string
  cls_dict :: "(string \<times> ('ds, 'd, 'r) class_property) list"

text \<open>
  The collaborators: \<^verbatim>\<open>open\<close> with \<^verbatim>\<open>yaml.load\<close>, which builds the parsed document in the
  store, and \<^verbatim>\<open>importlib.import_module\<close>, whose result answers \<^verbatim>\<open>getattr\<close>.
\<close>

record ('ds, 'd, 'r) env =
  load_yaml :: "string \<Rightarrow> store \<Rightarrow> (py_error + pyval) \<times> store"
  import_module :: "string \<Rightarrow> py_error + (string \<Rightarrow> py_error + ('ds, 'd, 'r) check_cls)"

subsection \<open>Text operations\<close>

text \<open>\<^verbatim>\<open>s.split(".")\<close> and \<^verbatim>\<open>".".join(parts)\<close>.\<close>

fun split_dot :: "string \<Rightarrow> string list" where
  "split_dot [] = [[]]"
| "split_dot (c # cs) =
     (if c = CHR ''.'' then [] # split_dot cs
      else (case split_dot cs of [] \<Rightarrow> [[c]] | p # ps \<Rightarrow> (c # p) # ps))"

fun join_dot :: "string list \<Rightarrow> string" where
  "join_dot [] = []"
| "join_dot [p] = p"
| "join_dot (p # q # ps) = p @ ''.'' @ join_dot (q # ps)"

text \<open>\<^verbatim>\<open>v.split(".")\<close>: only a text has the method.\<close>

definition py_split_dot :: "pyval \<Rightarrow> py_error + string list" where
  "py_split_dot v =
     (case v of
        PStr s \<Rightarrow> Inr (split_dot s)
      | _ \<Rightarrow> Inl (AttributeError ''object has no attribute 'split' ''))"

text \<open>
  \<^verbatim>\<open>"check_{}".format(v)\<close> for a text \<open>v\<close>. For any other value Python formats its
  \<^verbatim>\<open>str()\<close>, which the model does not follow; \<^verbatim>\<open>validate_config\<close> has made sure that
  \<^verbatim>\<open>check_id\<close> is a text (lemma \<open>method_name_of_valid\<close>).
\<close>

definition format_method_name :: "pyval \<Rightarrow> py_error + string" where
  "format_method_name v =
     (case v of
        PStr s \<Rightarrow> Inr (''check_'' @ s)
      | _ \<Rightarrow> Inl Unmodelled)"

subsection \<open>Dictionary methods on objects of the store\<close>

text \<open>
  The items of a dictionary passed as the argument of \<^verbatim>\<open>update\<close>. An argument that is not a
  dictionary (Python would try to read it as a sequence of pairs) is not followed;
  \<^verbatim>\<open>validate_config\<close> has made sure that \<^verbatim>\<open>parameters\<close> is a dictionary (lemma
  \<open>merge_parameters_valid\<close>).
\<close>

definition py_items :: "store \<Rightarrow> pyval \<Rightarrow> py_error + (pyval \<times> pyval) list" where
  "py_items h v =
     (case v of
        PRef a \<Rightarrow>
          (case deref h a of
             Some (ODict kvs) \<Rightarrow> Inr kvs
           | _ \<Rightarrow> Inl Unmodelled)
      | _ \<Rightarrow> Inl Unmodelled)"

text \<open>
  \<^verbatim>\<open>target.update(other)\<close>: writes the dictionary object at the address held by \<open>target\<close>,
  and no other object.
\<close>

definition py_update :: "store \<Rightarrow> pyval \<Rightarrow> (pyval \<times> pyval) list \<Rightarrow> py_error + store" where
  "py_update h target other =
     (case target of
        PRef a \<Rightarrow>
          (case deref h a of
             None \<Rightarrow> Inl Unmodelled
           | Some (ODict kvs) \<Rightarrow> Inr (h[a := ODict (dict_update kvs other)])
           | Some (OList xs) \<Rightarrow> Inl (AttributeError ''object has no attribute 'update' ''))
      | _ \<Rightarrow> Inl (AttributeError ''object has no attribute 'update' ''))"

text \<open>\<^verbatim>\<open>d.get(key, default)\<close>: only a dictionary has the method.\<close>

definition py_get :: "store \<Rightarrow> pyval \<Rightarrow> string \<Rightarrow> pyval \<Rightarrow> py_error + pyval" where
  "py_get h d key dflt =
     (case d of
        PRef a \<Rightarrow>
          (case deref h a of
             None \<Rightarrow> Inl Unmodelled
           | Some (ODict kvs) \<Rightarrow>
               (case dict_get kvs (PStr key) of None \<Rightarrow> Inr dflt | Some v \<Rightarrow> Inr v)
           | Some (OList xs) \<Rightarrow> Inl (AttributeError ''object has no attribute 'get' ''))
      | _ \<Rightarrow> Inl (AttributeError ''object has no attribute 'get' ''))"

subsection \<open>Sets of dataset types\<close>

text \<open>
  A Python set is represented by a list without duplicates. The order in which Python
  lists the elements of a set is not defined; only the set of elements of the lists below
  means anything.
\<close>

definition py_set :: "'a list \<Rightarrow> 'a list" where
  "py_set xs = remdups xs"

text \<open>
  \<^verbatim>\<open>set.intersection(*sets)\<close>: the unbound method needs its first argument, so an empty
  argument list raises \<^verbatim>\<open>TypeError\<close>.
\<close>

definition msg_no_argument :: string where
  "msg_no_argument = ''descriptor 'intersection' of 'set' object needs an argument''"

fun set_intersection :: "'a list list \<Rightarrow> py_error + 'a list" where
  "set_intersection [] = Inl (TypeError msg_no_argument)"
| "set_intersection (s # ss) = Inr (fold (\<lambda>t acc. filter (\<lambda>x. x \<in> set t) acc) ss s)"

subsection \<open>The loop over the check entries\<close>

definition msg_invalid_parameters :: string where
  "msg_invalid_parameters = ''Invalid parameters in YAML file: ''"

text \<open>
  Lines 54 to 56: \<^verbatim>\<open>except (ValueError, TypeError) as ex: raise ex.__class__(msg)\<close>. Other
  exceptions pass through.
\<close>

definition reraise :: "py_error \<Rightarrow> py_error" where
  "reraise ex =
     (case ex of
        ValueError m \<Rightarrow> ValueError (msg_invalid_parameters @ m)
      | TypeError m \<Rightarrow> TypeError (msg_invalid_parameters @ m)
      | _ \<Rightarrow> ex)"

text \<open>Lines 50 to 56.\<close>

definition validate_parameters ::
  "store \<Rightarrow> ('ds, 'd, 'r) check_cls \<Rightarrow> pyval \<Rightarrow> py_error + unit" where
  "validate_parameters h check_cls params =
     (case required_parameters check_cls of
        None \<Rightarrow> Inr ()
      | Some required \<Rightarrow>
          (case validate_fields h required params True of
             Inl ex \<Rightarrow> Inl (reraise ex)
           | Inr u \<Rightarrow> Inr ()))"

text \<open>Lines 42 to 44: the class named by \<^verbatim>\<open>check_info["check_name"]\<close>.\<close>

definition resolve_check ::
  "('ds, 'd, 'r) env \<Rightarrow> store \<Rightarrow> pyval \<Rightarrow> py_error + ('ds, 'd, 'r) check_cls" where
  "resolve_check env h check_info =
     (case py_getitem h check_info ''check_name'' of
        Inl e \<Rightarrow> Inl e
      | Inr check_name \<Rightarrow>
          (case py_split_dot check_name of
             Inl e \<Rightarrow> Inl e
           | Inr parts \<Rightarrow>
               (case import_module env (join_dot (butlast parts)) of
                  Inl e \<Rightarrow> Inl e
                | Inr module \<Rightarrow> module (last parts))))"

text \<open>Line 39.\<close>

definition method_name_of :: "store \<Rightarrow> pyval \<Rightarrow> py_error + string" where
  "method_name_of h check_info =
     (case py_getitem h check_info ''check_id'' of
        Inl e \<Rightarrow> Inl e
      | Inr check_id \<Rightarrow> format_method_name check_id)"

text \<open>
  Lines 47 to 49: \<^verbatim>\<open>params = {}\<close> creates a new dictionary object; the two \<^verbatim>\<open>update\<close>
  calls write that object. The result is the reference held by \<open>params\<close>.
\<close>

definition merge_parameters ::
  "store \<Rightarrow> ('ds, 'd, 'r) check_cls \<Rightarrow> pyval \<Rightarrow> (py_error + pyval) \<times> store" where
  "merge_parameters h check_cls check_info =
     (case alloc h (ODict []) of
        (a, h1) \<Rightarrow>
          (case py_update h1 (PRef a) (defaults check_cls) of
             Inl e \<Rightarrow> (Inl e, h1)
           | Inr h2 \<Rightarrow>
               (case py_getitem h2 check_info ''parameters'' of
                  Inl e \<Rightarrow> (Inl e, h2)
                | Inr parameters \<Rightarrow>
                    (case py_items h2 parameters of
                       Inl e \<Rightarrow> (Inl e, h2)
                     | Inr items \<Rightarrow>
                         (case py_update h2 (PRef a) items of
                            Inl e \<Rightarrow> (Inl e, h2)
                          | Inr h3 \<Rightarrow> (Inr (PRef a), h3))))))"

text \<open>
  One iteration of the loop, lines 39 to 59: the method name, the instance that
  \<^verbatim>\<open>inner\<close> captures and the set appended to \<^verbatim>\<open>supported_ds_sets\<close>, with the store after
  the iteration. An exception leaves the store as it is at that point.
\<close>

definition build_check ::
  "('ds, 'd, 'r) env \<Rightarrow> store \<Rightarrow> pyval \<Rightarrow>
     (py_error + string \<times> ('ds, 'd, 'r) check_instance \<times> 'ds list) \<times> store" where
  "build_check env h check_info =
     (case method_name_of h check_info of
        Inl e \<Rightarrow> (Inl e, h)
      | Inr method_name \<Rightarrow>
          (case resolve_check env h check_info of
             Inl e \<Rightarrow> (Inl e, h)
           | Inr check_cls \<Rightarrow>
               (case merge_parameters h check_cls check_info of
                  (Inl e, h') \<Rightarrow> (Inl e, h')
                | (Inr params, h') \<Rightarrow>
                    (case validate_parameters h' check_cls params of
                       Inl e \<Rightarrow> (Inl e, h')
                     | Inr u \<Rightarrow>
                         (case py_get h' check_info ''check_level'' PNone of
                            Inl e \<Rightarrow> (Inl e, h')
                          | Inr level_str \<Rightarrow>
                              (Inr (method_name,
                                    \<lparr>inst_class = check_cls, kwargs = params, level = level_str\<rparr>,
                                    py_set (supported_ds check_cls)),
                               h'))))))"

text \<open>
  Lines 38 to 71. \<^verbatim>\<open>class_properties[method_name] = inner\<close> replaces an earlier function of
  the same name.
\<close>

fun build_checks ::
  "('ds, 'd, 'r) env \<Rightarrow> pyval list \<Rightarrow> store \<Rightarrow>
     (string \<times> ('ds, 'd, 'r) class_property) list \<Rightarrow> 'ds list list \<Rightarrow>
     (py_error + (string \<times> ('ds, 'd, 'r) class_property) list \<times> 'ds list list) \<times> store" where
  "build_checks env [] h class_properties supported_ds_sets =
     (Inr (class_properties, supported_ds_sets), h)"
| "build_checks env (check_info # rest) h class_properties supported_ds_sets =
     (case build_check env h check_info of
        (Inl e, h') \<Rightarrow> (Inl e, h')
      | (Inr (method_name, check_instance, ds_set), h') \<Rightarrow>
          build_checks env rest h'
            (AList.update method_name (Method check_instance) class_properties)
            (supported_ds_sets @ [ds_set]))"

subsection \<open>The whole operation\<close>

text \<open>
  Line 76: \<^verbatim>\<open>type(name, (BaseCheck,), class_properties)\<close> wants a text as the name, and a text
  without a null character.
\<close>

definition msg_null_character :: string where
  "msg_null_character = ''type name must not contain null characters''"

definition make_type ::
  "pyval \<Rightarrow> (string \<times> ('ds, 'd, 'r) class_property) list \<Rightarrow>
     py_error + ('ds, 'd, 'r) checker_class" where
  "make_type name class_properties =
     (case name of
        PStr s \<Rightarrow>
          if CHR 0x00 \<in> set s then Inl (ValueError msg_null_character)
          else Inr \<lparr>cls_name = s, cls_dict = class_properties\<rparr>
      | _ \<Rightarrow> Inl (TypeError ''type() argument 1 must be str''))"

text \<open>Lines 31 to 76, for a configuration that is already a structure.\<close>

definition assemble ::
  "('ds, 'd, 'r) env \<Rightarrow> store \<Rightarrow> pyval \<Rightarrow>
     (py_error + ('ds, 'd, 'r) checker_class) \<times> store" where
  "assemble env h config =
     (case validate_config h config of
        Inl e \<Rightarrow> (Inl e, h)
      | Inr u \<Rightarrow>
          (case py_getitem h config ''checks'' of
             Inl e \<Rightarrow> (Inl e, h)
           | Inr checks \<Rightarrow>
               (case py_iter h checks of
                  Inl e \<Rightarrow> (Inl e, h)
                | Inr entries \<Rightarrow>
                    (case build_checks env entries h [] [] of
                       (Inl e, h') \<Rightarrow> (Inl e, h')
                     | (Inr (class_properties, supported_ds_sets), h') \<Rightarrow>
                         (case set_intersection supported_ds_sets of
                            Inl e \<Rightarrow> (Inl e, h')
                          | Inr common \<Rightarrow>
                              (case py_getitem h' config ''suite_name'' of
                                 Inl e \<Rightarrow> (Inl e, h')
                               | Inr name \<Rightarrow>
                                   (make_type name
                                      (AList.update ''supported_ds'' (Attribute common)
                                         class_properties),
                                    h')))))))"

text \<open>Lines 24 to 29: a text is a file name, and the loaded document must be a dictionary.\<close>

definition load_config ::
  "('ds, 'd, 'r) env \<Rightarrow> store \<Rightarrow> pyval \<Rightarrow> (py_error + pyval) \<times> store" where
  "load_config env h config =
     (case config of
        PStr filename \<Rightarrow>
          (case load_yaml env filename h of
             (Inl e, h1) \<Rightarrow> (Inl e, h1)
           | (Inr loaded, h1) \<Rightarrow>
               (case py_isinstance h1 loaded TDict of
                  Inl e \<Rightarrow> (Inl e, h1)
                | Inr False \<Rightarrow> (Inl (TypeError ''Could not parse dictionary from YAML file''), h1)
                | Inr True \<Rightarrow> (Inr loaded, h1)))
      | _ \<Rightarrow> (Inr config, h))"

definition get_checker_class ::
  "('ds, 'd, 'r) env \<Rightarrow> store \<Rightarrow> pyval \<Rightarrow>
     (py_error + ('ds, 'd, 'r) checker_class) \<times> store" where
  "get_checker_class env h config =
     (case load_config env h config of
        (Inl e, h1) \<Rightarrow> (Inl e, h1)
      | (Inr loaded, h1) \<Rightarrow> assemble env h1 loaded)"

subsection \<open>Using the generated class\<close>

text \<open>The \<^verbatim>\<open>supported_ds\<close> attribute and the call \<^verbatim>\<open>checker.<name>(ds)\<close> of a generated method.\<close>

definition class_supported_ds :: "('ds, 'd, 'r) checker_class \<Rightarrow> 'ds list option" where
  "class_supported_ds c =
     (case map_of (cls_dict c) ''supported_ds'' of
        Some (Attribute xs) \<Rightarrow> Some xs
      | _ \<Rightarrow> None)"

definition class_method ::
  "('ds, 'd, 'r) checker_class \<Rightarrow> string \<Rightarrow> ('ds, 'd, 'r) check_instance option" where
  "class_method c name =
     (case map_of (cls_dict c) name of
        Some (Method inst) \<Rightarrow> Some inst
      | _ \<Rightarrow> None)"

definition call_method ::
  "('ds, 'd, 'r) checker_class \<Rightarrow> store \<Rightarrow> string \<Rightarrow> 'd \<Rightarrow> 'r option" where
  "call_method c h name ds =
     (case class_method c name of
        None \<Rightarrow> None
      | Some inst \<Rightarrow> Some (instance_do_check inst h ds))"

definition method_names :: "('ds, 'd, 'r) checker_class \<Rightarrow> string set" where
  "method_names c = {name. class_method c name \<noteq> None}"

section \<open>Vocabulary of the specification\<close>

text \<open>
  The data model of the specification, read off a store: the value a mapping binds to a
  key, and the shapes the specification asks of a configuration document and of a check
  entry.
\<close>

definition field :: "store \<Rightarrow> pyval \<Rightarrow> string \<Rightarrow> pyval option" where
  "field h d key =
     (case d of
        PRef a \<Rightarrow> (case deref h a of Some (ODict kvs) \<Rightarrow> dict_get kvs (PStr key) | _ \<Rightarrow> None)
      | _ \<Rightarrow> None)"

definition is_mapping :: "store \<Rightarrow> pyval \<Rightarrow> bool" where
  "is_mapping h d = (py_class h d = Inr TDict)"

definition has_text :: "store \<Rightarrow> pyval \<Rightarrow> string \<Rightarrow> bool" where
  "has_text h d key = (case field h d key of Some (PStr s) \<Rightarrow> True | _ \<Rightarrow> False)"

definition has_mapping :: "store \<Rightarrow> pyval \<Rightarrow> string \<Rightarrow> bool" where
  "has_mapping h d key = (case field h d key of Some v \<Rightarrow> is_mapping h v | None \<Rightarrow> False)"

definition level_ok :: "store \<Rightarrow> pyval \<Rightarrow> bool" where
  "level_ok h e =
     (case field h e ''check_level'' of
        None \<Rightarrow> True
      | Some v \<Rightarrow> v \<in> set (map PStr allowed_levels))"

definition entry_ok :: "store \<Rightarrow> pyval \<Rightarrow> bool" where
  "entry_ok h e \<longleftrightarrow>
     has_text h e ''check_id'' \<and> has_mapping h e ''parameters'' \<and> has_text h e ''check_name'' \<and>
     level_ok h e"

definition checks_of :: "store \<Rightarrow> pyval \<Rightarrow> pyval list option" where
  "checks_of h config =
     (case field h config ''checks'' of
        Some (PRef b) \<Rightarrow> (case deref h b of Some (OList entries) \<Rightarrow> Some entries | _ \<Rightarrow> None)
      | _ \<Rightarrow> None)"

definition config_ok :: "store \<Rightarrow> pyval \<Rightarrow> bool" where
  "config_ok h config \<longleftrightarrow>
     has_text h config ''suite_name'' \<and>
     (case checks_of h config of
        None \<Rightarrow> False
      | Some entries \<Rightarrow> entries \<noteq> [] \<and> list_all (entry_ok h) entries)"


text \<open>
  The effective parameters of the specification: the defaults of the implementation,
  overwritten key by key by the items of the entry's \<^verbatim>\<open>parameters\<close>; the items and the level of
  an entry; and what one iteration of the assembler's loop has built for an entry of the
  store \<open>h\<close>, seen in a later store \<open>h'\<close>: the method name, an instance of the class the
  entry names, with the entry's level, whose parameters are a dictionary object that did not
  exist in \<open>h\<close> and holds the effective parameters, and the set of the class's dataset types.
\<close>

definition merged_parameters ::
  "('ds, 'd, 'r) check_cls \<Rightarrow> (pyval \<times> pyval) list \<Rightarrow> (pyval \<times> pyval) list" where
  "merged_parameters check_cls items = dict_update (dict_update [] (defaults check_cls)) items"

definition entry_items :: "store \<Rightarrow> pyval \<Rightarrow> (pyval \<times> pyval) list" where
  "entry_items h e =
     (case field h e ''parameters'' of
        Some (PRef a) \<Rightarrow> (case deref h a of Some (ODict items) \<Rightarrow> items | _ \<Rightarrow> [])
      | _ \<Rightarrow> [])"

definition entry_level :: "store \<Rightarrow> pyval \<Rightarrow> pyval" where
  "entry_level h e = (case field h e ''check_level'' of None \<Rightarrow> PNone | Some v \<Rightarrow> v)"

definition entry_built ::
  "('ds, 'd, 'r) env \<Rightarrow> store \<Rightarrow> store \<Rightarrow> pyval \<Rightarrow>
     string \<times> ('ds, 'd, 'r) check_instance \<times> 'ds list \<Rightarrow> bool" where
  "entry_built env h h' e b =
     (case b of
        (method_name, inst, ds_set) \<Rightarrow>
          method_name_of h e = Inr method_name \<and>
          resolve_check env h e = Inr (inst_class inst) \<and>
          level inst = entry_level h e \<and>
          ds_set = py_set (supported_ds (inst_class inst)) \<and>
          (case kwargs inst of
             PRef a \<Rightarrow>
               length h \<le> a \<and>
               deref h' a = Some (ODict (merged_parameters (inst_class inst) (entry_items h e)))
           | _ \<Rightarrow> False))"

definition add_method ::
  "string \<times> ('ds, 'd, 'r) check_instance \<times> 'ds list \<Rightarrow>
     (string \<times> ('ds, 'd, 'r) class_property) list \<Rightarrow>
     (string \<times> ('ds, 'd, 'r) class_property) list" where
  "add_method b class_properties =
     (case b of (method_name, inst, ds_set) \<Rightarrow> AList.update method_name (Method inst) class_properties)"

text \<open>
  The items of a Python dictionary have pairwise different keys.
\<close>

definition dict_wf :: "(pyval \<times> pyval) list \<Rightarrow> bool" where
  "dict_wf d = distinct (map (\<lambda>item. norm_key (fst item)) d)"

section \<open>Configurations of the test suite (\<^verbatim>\<open>cc_yaml/tests.py\<close>)\<close>

text \<open>
  \<^verbatim>\<open>{"suite_name": "hello", "checks": [{"check_id": "one", "parameters": {}, "check_name": "blah"}]}\<close>,
  the valid configuration of \<^verbatim>\<open>test_missing_keys\<close>; the configuration is \<open>PRef 3\<close>.
\<close>

definition h_valid :: store where
  "h_valid =
     [ODict [],
      ODict [(PStr ''check_id'', PStr ''one''), (PStr ''parameters'', PRef 0),
             (PStr ''check_name'', PStr ''blah'')],
      OList [PRef 1],
      ODict [(PStr ''suite_name'', PStr ''hello''), (PStr ''checks'', PRef 2)]]"

text \<open>
  \<^verbatim>\<open>{"suite_name": "hello", "checks": [{"check_id": "one"}]}\<close>, the fourth invalid
  configuration of \<^verbatim>\<open>test_missing_keys\<close>; the configuration is \<open>PRef 2\<close>.
\<close>

definition h_missing_parameters :: store where
  "h_missing_parameters =
     [ODict [(PStr ''check_id'', PStr ''one'')],
      OList [PRef 0],
      ODict [(PStr ''suite_name'', PStr ''hello''), (PStr ''checks'', PRef 1)]]"

text \<open>
  \<^verbatim>\<open>{"suite_name": "test", "checks": []}\<close> of \<^verbatim>\<open>test_no_checks\<close> and \<^verbatim>\<open>{"checks": []}\<close> of
  \<^verbatim>\<open>test_missing_keys\<close>; the configuration is \<open>PRef 1\<close> in both.
\<close>

definition h_no_checks :: store where
  "h_no_checks =
     [OList [],
      ODict [(PStr ''suite_name'', PStr ''test''), (PStr ''checks'', PRef 0)]]"

definition h_no_name :: store where
  "h_no_name = [OList [], ODict [(PStr ''checks'', PRef 0)]]"

text \<open>
  The valid configuration of \<^verbatim>\<open>test_invalid_types\<close> with \<^verbatim>\<open>check_id\<close> replaced by \<^verbatim>\<open>{}\<close>
  (\<^verbatim>\<open>c3\<close> of that test); the entry is \<open>PRef 2\<close>, the configuration \<open>PRef 4\<close>.
\<close>

definition h_wrong_check_id :: store where
  "h_wrong_check_id =
     [ODict [],
      ODict [],
      ODict [(PStr ''check_id'', PRef 0), (PStr ''parameters'', PRef 1),
             (PStr ''check_name'', PStr ''checklib.register.FileSizeCheck'')],
      OList [PRef 2],
      ODict [(PStr ''suite_name'', PStr ''hello''), (PStr ''checks'', PRef 3)]]"

text \<open>
  \<^verbatim>\<open>{"suite_name": "hello", "checks": [{"check_id": "one", "check_name": {}}]}\<close>: the entry
  (\<open>PRef 1\<close>) binds \<^verbatim>\<open>check_name\<close> to a mapping and has no \<^verbatim>\<open>parameters\<close>; the configuration
  is \<open>PRef 3\<close>.
\<close>

definition h_wrong_check_name :: store where
  "h_wrong_check_name =
     [ODict [],
      ODict [(PStr ''check_id'', PStr ''one''), (PStr ''check_name'', PRef 0)],
      OList [PRef 1],
      ODict [(PStr ''suite_name'', PStr ''hello''), (PStr ''checks'', PRef 2)]]"

text \<open>
  The valid configuration of \<^verbatim>\<open>test_missing_keys\<close> with \<^verbatim>\<open>"check_level": "CRITICAL"\<close> added to
  its entry (\<open>PRef 1\<close>, configuration \<open>PRef 3\<close>), and the same with \<^verbatim>\<open>check_id\<close> replaced by
  \<^verbatim>\<open>{}\<close> as well (entry \<open>PRef 2\<close>, configuration \<open>PRef 4\<close>).
\<close>

definition h_bad_level :: store where
  "h_bad_level =
     [ODict [],
      ODict [(PStr ''check_id'', PStr ''one''), (PStr ''parameters'', PRef 0),
             (PStr ''check_name'', PStr ''blah''), (PStr ''check_level'', PStr ''CRITICAL'')],
      OList [PRef 1],
      ODict [(PStr ''suite_name'', PStr ''hello''), (PStr ''checks'', PRef 2)]]"

definition h_bad_level_wrong_id :: store where
  "h_bad_level_wrong_id =
     [ODict [],
      ODict [],
      ODict [(PStr ''check_id'', PRef 0), (PStr ''parameters'', PRef 1),
             (PStr ''check_name'', PStr ''blah''), (PStr ''check_level'', PStr ''CRITICAL'')],
      OList [PRef 2],
      ODict [(PStr ''suite_name'', PStr ''hello''), (PStr ''checks'', PRef 3)]]"

text \<open>
  The check classes of \<^verbatim>\<open>cc_yaml/tests.py\<close>, with integers as dataset types and a text as the
  dataset. Their base class belongs to the check library; \<open>base_do_check\<close> stands for the
  \<^verbatim>\<open>do_check\<close> they inherit, which no example below calls, and the inherited \<^verbatim>\<open>defaults\<close>
  and \<^verbatim>\<open>supported_ds\<close> are taken to be empty. \<^verbatim>\<open>DefaultParamsTestCheckClass.do_check\<close> returns
  \<^verbatim>\<open>self.kwargs["one"]\<close>.
\<close>

definition base_do_check :: "store \<Rightarrow> pyval \<Rightarrow> pyval \<Rightarrow> string \<Rightarrow> py_error + pyval" where
  "base_do_check h kw lv ds = Inl (ExternalError ''ParameterisableCheckBase.do_check'')"

definition SupportDsTestCheckClass1 :: "(nat, string, py_error + pyval) check_cls" where
  "SupportDsTestCheckClass1 =
     \<lparr>defaults = [], required_parameters = None, supported_ds = [1, 2, 3],
      do_check = base_do_check\<rparr>"

definition SupportDsTestCheckClass2 :: "(nat, string, py_error + pyval) check_cls" where
  "SupportDsTestCheckClass2 =
     \<lparr>defaults = [], required_parameters = None, supported_ds = [2, 3, 4],
      do_check = base_do_check\<rparr>"

definition DefaultParamsTestCheckClass :: "(nat, string, py_error + pyval) check_cls" where
  "DefaultParamsTestCheckClass =
     \<lparr>defaults = [(PStr ''one'', PStr ''hello'')],
      required_parameters = Some [(''one'', TStr)],
      supported_ds = [],
      do_check = (\<lambda>h kw lv ds. py_getitem h kw ''one'')\<rparr>"

text \<open>
  The importer of the examples knows the module \<^verbatim>\<open>cc_yaml.tests\<close> and nothing else; there is
  no file to load.
\<close>

definition tests_module :: "string \<Rightarrow> py_error + (nat, string, py_error + pyval) check_cls" where
  "tests_module name =
     (if name = ''SupportDsTestCheckClass1'' then Inr SupportDsTestCheckClass1
      else if name = ''SupportDsTestCheckClass2'' then Inr SupportDsTestCheckClass2
      else if name = ''DefaultParamsTestCheckClass'' then Inr DefaultParamsTestCheckClass
      else Inl (AttributeError name))"

definition tests_env :: "(nat, string, py_error + pyval) env" where
  "tests_env =
     \<lparr>load_yaml = (\<lambda>filename h. (Inl (ExternalError filename), h)),
      import_module =
        (\<lambda>name. if name = ''cc_yaml.tests'' then Inr tests_module else Inl (ExternalError name))\<rparr>"

text \<open>
  The configuration of \<^verbatim>\<open>test_supported_ds\<close>: two entries with the same \<^verbatim>\<open>check_id\<close>
  \<^verbatim>\<open>"one"\<close>, naming \<^verbatim>\<open>SupportDsTestCheckClass1\<close> (entry \<open>PRef 1\<close>) and
  \<^verbatim>\<open>SupportDsTestCheckClass2\<close> (entry \<open>PRef 3\<close>); the configuration is \<open>PRef 5\<close>.
\<close>

definition h_supported_ds :: store where
  "h_supported_ds =
     [ODict [],
      ODict [(PStr ''check_id'', PStr ''one''), (PStr ''parameters'', PRef 0),
             (PStr ''check_name'', PStr ''cc_yaml.tests.SupportDsTestCheckClass1'')],
      ODict [],
      ODict [(PStr ''check_id'', PStr ''one''), (PStr ''parameters'', PRef 2),
             (PStr ''check_name'', PStr ''cc_yaml.tests.SupportDsTestCheckClass2'')],
      OList [PRef 1, PRef 3],
      ODict [(PStr ''suite_name'', PStr ''test_suite''), (PStr ''checks'', PRef 4)]]"

text \<open>
  The configuration of \<^verbatim>\<open>test_default_parameters\<close>: one entry (\<open>PRef 1\<close>) with empty
  \<^verbatim>\<open>parameters\<close>, naming \<^verbatim>\<open>DefaultParamsTestCheckClass\<close>; the configuration is \<open>PRef 3\<close>.
\<close>

definition h_default_parameters :: store where
  "h_default_parameters =
     [ODict [],
      ODict [(PStr ''check_id'', PStr ''one''), (PStr ''parameters'', PRef 0),
             (PStr ''check_name'', PStr ''cc_yaml.tests.DefaultParamsTestCheckClass'')],
      OList [PRef 1],
      ODict [(PStr ''suite_name'', PStr ''test_suite''), (PStr ''checks'', PRef 2)]]"

text \<open>
  Two entries with the check ids \<^verbatim>\<open>"one"\<close> and \<^verbatim>\<open>"two"\<close>, as in \<^verbatim>\<open>test_class_gen\<close>, naming the
  two classes above (the class of that test belongs to the check library); the entries are
  \<open>PRef 1\<close> and \<open>PRef 3\<close>, the configuration is \<open>PRef 5\<close>.
\<close>

definition h_two_checks :: store where
  "h_two_checks =
     [ODict [],
      ODict [(PStr ''check_id'', PStr ''one''), (PStr ''parameters'', PRef 0),
             (PStr ''check_name'', PStr ''cc_yaml.tests.SupportDsTestCheckClass1'')],
      ODict [],
      ODict [(PStr ''check_id'', PStr ''two''), (PStr ''parameters'', PRef 2),
             (PStr ''check_name'', PStr ''cc_yaml.tests.SupportDsTestCheckClass2'')],
      OList [PRef 1, PRef 3],
      ODict [(PStr ''suite_name'', PStr ''test_suite''), (PStr ''checks'', PRef 4)]]"

text \<open>
  The configuration of \<^verbatim>\<open>test_default_parameters\<close> with a suite name that contains a null
  character (\<^verbatim>\<open>"a\0b"\<close>); the configuration is \<open>PRef 3\<close>.
\<close>

definition h_null_name :: store where
  "h_null_name =
     [ODict [],
      ODict [(PStr ''check_id'', PStr ''one''), (PStr ''parameters'', PRef 0),
             (PStr ''check_name'', PStr ''cc_yaml.tests.DefaultParamsTestCheckClass'')],
      OList [PRef 1],
      ODict [(PStr ''suite_name'', PStr [CHR ''a'', CHR 0x00, CHR ''b'']),
             (PStr ''checks'', PRef 2)]]"

section \<open>Properties of the Config Validator\<close>

subsection \<open>One field\<close>

lemma vf_required_ok:
  "validate_field h key t d True = Inr () \<longleftrightarrow>
     (\<exists>v. field h d key = Some v \<and> py_isinstance h v t = Inr True)"
  by (auto simp: validate_field_def py_contains_def py_getitem_def field_def
           split: pyval.splits option.splits pyobj.splits sum.splits bool.splits if_splits)

lemma vf_optional_ok:
  "is_mapping h d \<Longrightarrow> validate_field h key t d False = Inr () \<longleftrightarrow>
     (case field h d key of None \<Rightarrow> True | Some v \<Rightarrow> py_isinstance h v t = Inr True)"
  by (auto simp: validate_field_def py_contains_def py_getitem_def field_def is_mapping_def py_class_def
           split: pyval.splits option.splits pyobj.splits sum.splits bool.splits if_splits)

lemma vf_wrong_type:
  "field h d key = Some v \<Longrightarrow> py_isinstance h v t = Inr False \<Longrightarrow>
   validate_field h key t d req = Inl (TypeError (msg_wrong_type key t))"
  by (auto simp: validate_field_def py_contains_def py_getitem_def field_def
           split: pyval.splits option.splits pyobj.splits sum.splits bool.splits if_splits)

lemma vf_missing:
  "is_mapping h d \<Longrightarrow> field h d key = None \<Longrightarrow>
   validate_field h key t d True = Inl (ValueError (msg_required key))"
  by (auto simp: validate_field_def py_contains_def py_getitem_def field_def is_mapping_def py_class_def
           split: pyval.splits option.splits pyobj.splits sum.splits bool.splits if_splits)

lemma vf_field_mapping: "field h d key = Some v \<Longrightarrow> is_mapping h d"
  by (auto simp: field_def is_mapping_def py_class_def split: pyval.splits option.splits pyobj.splits)


subsection \<open>Valid entries and valid configurations\<close>

lemma validate_fields_ok_Cons:
  "validate_fields h ((k, t) # fs) d r = Inr () \<longleftrightarrow>
     validate_field h k t d r = Inr () \<and> validate_fields h fs d r = Inr ()"
  by (auto split: sum.splits)

lemma isinstance_str: "py_isinstance h v TStr = Inr True \<longleftrightarrow> (\<exists>s. v = PStr s)"
  by (auto simp: py_isinstance_def py_class_def split: pyval.splits option.splits pyobj.splits sum.splits)

lemma isinstance_dict: "py_isinstance h v TDict = Inr True \<longleftrightarrow> is_mapping h v"
  by (auto simp: py_isinstance_def is_mapping_def split: sum.splits)

lemma isinstance_list:
  "py_isinstance h v TList = Inr True \<longleftrightarrow> (\<exists>b es. v = PRef b \<and> deref h b = Some (OList es))"
  by (auto simp: py_isinstance_def py_class_def split: pyval.splits option.splits pyobj.splits sum.splits)

lemma required_global_ok:
  "validate_fields h required_global config True = Inr () \<longleftrightarrow>
     has_text h config ''suite_name'' \<and> checks_of h config \<noteq> None"
  by (auto simp: required_global_def validate_fields_ok_Cons vf_required_ok isinstance_str
        isinstance_list has_text_def checks_of_def simp del: validate_fields.simps(2)
        split: option.splits pyval.splits pyobj.splits)

lemma required_percheck_ok:
  "validate_fields h required_percheck e True = Inr () \<longleftrightarrow>
     has_text h e ''check_id'' \<and> has_mapping h e ''parameters'' \<and> has_text h e ''check_name''"
  by (auto simp: required_percheck_def validate_fields_ok_Cons vf_required_ok isinstance_str
        isinstance_dict has_text_def has_mapping_def simp del: validate_fields.simps(2)
        split: option.splits pyval.splits pyobj.splits)

lemma validate_level_mapping:
  "is_mapping h e \<Longrightarrow>
   validate_level h e =
     (case field h e ''check_level'' of
        None \<Rightarrow> Inr ()
      | Some v \<Rightarrow>
          if v \<in> set (map PStr allowed_levels) then Inr () else Inl (ValueError msg_check_level))"
  by (auto simp: validate_level_def py_contains_def py_getitem_def field_def is_mapping_def
        py_class_def split: pyval.splits option.splits pyobj.splits sum.splits bool.splits)

lemma has_text_mapping: "has_text h d key \<Longrightarrow> is_mapping h d"
  by (auto simp: has_text_def dest: vf_field_mapping split: option.splits)

lemma optional_percheck_ok:
  "is_mapping h e \<Longrightarrow>
   validate_fields h optional_percheck e False = Inr () \<longleftrightarrow>
     (case field h e ''check_level'' of None \<Rightarrow> True | Some v \<Rightarrow> \<exists>s. v = PStr s)"
  by (auto simp: optional_percheck_def validate_fields_ok_Cons vf_optional_ok isinstance_str
        simp del: validate_fields.simps(2) split: option.splits)

lemma validate_check_info_ok: "validate_check_info h e = Inr () \<longleftrightarrow> entry_ok h e"
proof (cases "validate_fields h required_percheck e True")
  case (Inl err)
  then show ?thesis
    using required_percheck_ok [of h e] by (auto simp: validate_check_info_def entry_ok_def)
next
  case (Inr u)
  then have req: "has_text h e ''check_id''" "has_mapping h e ''parameters''"
      "has_text h e ''check_name''"
    using required_percheck_ok [of h e] by auto
  then have m: "is_mapping h e" by (auto dest: has_text_mapping)
  show ?thesis
    using Inr req optional_percheck_ok [OF m] validate_level_mapping [OF m]
    by (auto simp: validate_check_info_def entry_ok_def level_ok_def allowed_levels_def
          split: sum.splits option.splits)
qed

lemma validate_checks_ok_Cons:
  "validate_checks h (e # es) = Inr () \<longleftrightarrow>
     validate_check_info h e = Inr () \<and> validate_checks h es = Inr ()"
  by (auto split: sum.splits)

lemma validate_checks_ok: "validate_checks h es = Inr () \<longleftrightarrow> list_all (entry_ok h) es"
  by (induction es) (simp_all add: validate_checks_ok_Cons validate_check_info_ok del: validate_checks.simps(2))

lemma checks_of_reads:
  "checks_of h config = Some es \<Longrightarrow>
   \<exists>b. py_getitem h config ''checks'' = Inr (PRef b) \<and> py_iter h (PRef b) = Inr es \<and>
        py_len h (PRef b) = Inr (length es)"
  by (auto simp: checks_of_def field_def py_getitem_def py_iter_def py_len_def
        split: pyval.splits option.splits pyobj.splits)

lemma validate_config_ok: "validate_config h config = Inr () \<longleftrightarrow> config_ok h config"
proof (cases "validate_fields h required_global config True")
  case (Inl err)
  then show ?thesis
    using required_global_ok [of h config]
    by (auto simp: validate_config_def config_ok_def split: option.splits)
next
  case (Inr u)
  then obtain es where es: "checks_of h config = Some es" and name: "has_text h config ''suite_name''"
    using required_global_ok [of h config] by auto
  from checks_of_reads [OF es] obtain b where
    "py_getitem h config ''checks'' = Inr (PRef b)" "py_iter h (PRef b) = Inr es"
    "py_len h (PRef b) = Inr (length es)" by blast
  then show ?thesis
    using Inr es name validate_checks_ok [of h es]
    by (auto simp: validate_config_def config_ok_def split: sum.splits)
qed


subsection \<open>The order of the checks\<close>

lemma vf_value_error:
  "validate_field h k t d r = Inl (ValueError m) \<Longrightarrow> m = msg_required k"
  by (auto simp: validate_field_def py_contains_def py_getitem_def py_isinstance_def py_class_def
        split: pyval.splits option.splits pyobj.splits sum.splits bool.splits if_splits)

lemma vfs_value_error:
  "validate_fields h fs d r = Inl (ValueError m) \<Longrightarrow> m \<in> msg_required ` fst ` set fs"
  by (induction fs) (auto dest: vf_value_error split: sum.splits)

lemma validate_fields_append:
  "validate_fields h (fs @ gs) d r =
     (case validate_fields h fs d r of Inl e \<Rightarrow> Inl e | Inr u \<Rightarrow> validate_fields h gs d r)"
  by (induction fs) (auto split: sum.splits)

lemma validate_checks_append:
  "validate_checks h (es @ fs) =
     (case validate_checks h es of Inl e \<Rightarrow> Inl e | Inr u \<Rightarrow> validate_checks h fs)"
  by (induction es) (auto split: sum.splits)

lemma validate_config_unfold:
  assumes "has_text h config ''suite_name''" and "checks_of h config = Some es"
  shows "validate_config h config =
     (case validate_checks h es of
        Inl e \<Rightarrow> Inl e
      | Inr u \<Rightarrow> if es = [] then Inl (ValueError msg_empty_checks) else Inr ())"
proof -
  have "validate_fields h required_global config True = Inr ()"
    using assms by (simp add: required_global_ok)
  moreover obtain b where
    "py_getitem h config ''checks'' = Inr (PRef b)" "py_iter h (PRef b) = Inr es"
    "py_len h (PRef b) = Inr (length es)"
    using checks_of_reads [OF assms(2)] by blast
  ultimately show ?thesis
    by (simp add: validate_config_def split: sum.splits)
qed

lemma validate_config_global_error:
  "validate_fields h required_global config True = Inl e \<Longrightarrow> validate_config h config = Inl e"
  by (simp add: validate_config_def)

lemma msg_distinct:
  "msg_required ''checks'' \<noteq> msg_empty_checks" "msg_required ''suite_name'' \<noteq> msg_empty_checks"
  "msg_required ''check_id'' \<noteq> msg_check_level" "msg_required ''parameters'' \<noteq> msg_check_level"
  "msg_required ''check_name'' \<noteq> msg_check_level" "msg_required ''check_level'' \<noteq> msg_check_level"
  "msg_required ''check_id'' \<noteq> msg_empty_checks" "msg_required ''parameters'' \<noteq> msg_empty_checks"
  "msg_required ''check_name'' \<noteq> msg_empty_checks" "msg_required ''check_level'' \<noteq> msg_empty_checks"
  "msg_check_level \<noteq> msg_empty_checks"
  by (simp_all add: msg_required_def msg_empty_checks_def msg_check_level_def quote_def)

lemma validate_level_value_error:
  "validate_level h e = Inl (ValueError m) \<Longrightarrow> m = msg_check_level"
  by (auto simp: validate_level_def py_contains_def py_getitem_def
        split: pyval.splits option.splits pyobj.splits sum.splits bool.splits if_splits)

lemma validate_check_info_not_empty_error:
  "validate_check_info h e \<noteq> Inl (ValueError msg_empty_checks)"
proof
  assume a: "validate_check_info h e = Inl (ValueError msg_empty_checks)"
  then consider
      "validate_fields h required_percheck e True = Inl (ValueError msg_empty_checks)"
    | "validate_fields h optional_percheck e False = Inl (ValueError msg_empty_checks)"
    | "validate_level h e = Inl (ValueError msg_empty_checks)"
    by (auto simp: validate_check_info_def split: sum.splits)
  then show False
  proof cases
    case 1
    from vfs_value_error [OF this] show False
      using msg_distinct by (auto simp: required_percheck_def)
  next
    case 2
    from vfs_value_error [OF this] show False
      using msg_distinct by (auto simp: optional_percheck_def)
  next
    case 3
    from validate_level_value_error [OF this] show False
      using msg_distinct by simp
  qed
qed

lemma validate_checks_not_empty_error:
  "validate_checks h es \<noteq> Inl (ValueError msg_empty_checks)"
  by (induction es) (auto simp: validate_check_info_not_empty_error split: sum.splits)


lemma checks_field_ok:
  "checks_of h config = Some es \<Longrightarrow> validate_field h ''checks'' TList config True = Inr ()"
  by (auto simp: vf_required_ok isinstance_list checks_of_def
        split: option.splits pyval.splits pyobj.splits)

lemma checks_of_mapping: "checks_of h config = Some es \<Longrightarrow> is_mapping h config"
  by (auto simp: checks_of_def dest: vf_field_mapping split: option.splits)

lemma suite_name_error:
  assumes "checks_of h config = Some es"
    and "validate_field h ''suite_name'' TStr config True = Inl err"
  shows "validate_config h config = Inl err"
proof -
  have "validate_fields h required_global config True = Inl err"
    using checks_field_ok [OF assms(1)] assms(2) by (simp add: required_global_def)
  then show ?thesis by (rule validate_config_global_error)
qed

text \<open>
  Claim C7. The checks of the top-level fields come first, then the checks of the entries,
  then the test for an empty list, and the first exception is the result: an exception of
  a top-level field check, or of an entry check, is the result of \<open>validate_config\<close> and is
  never the exception for the empty list; the exception for the empty list is the result
  exactly when \<^verbatim>\<open>suite_name\<close> is a text and \<^verbatim>\<open>checks\<close> is the empty list. In particular,
  when \<^verbatim>\<open>checks\<close> is a list (empty or not) and \<^verbatim>\<open>suite_name\<close> is missing or is not a text,
  the result is the \<^verbatim>\<open>ValueError\<close> or the \<^verbatim>\<open>TypeError\<close> for \<^verbatim>\<open>suite_name\<close>.
\<close>

theorem validate_config_order:
  "(validate_fields h required_global config True = Inl e \<longrightarrow>
      validate_config h config = Inl e \<and> e \<noteq> ValueError msg_empty_checks) \<and>
   (has_text h config ''suite_name'' \<and> checks_of h config = Some es \<and>
      validate_checks h es = Inl e \<longrightarrow>
      validate_config h config = Inl e \<and> e \<noteq> ValueError msg_empty_checks) \<and>
   (validate_config h config = Inl (ValueError msg_empty_checks) \<longleftrightarrow>
      has_text h config ''suite_name'' \<and> checks_of h config = Some []) \<and>
   (checks_of h config = Some es \<and> field h config ''suite_name'' = None \<longrightarrow>
      validate_config h config = Inl (ValueError (msg_required ''suite_name''))) \<and>
   (checks_of h config = Some es \<and> field h config ''suite_name'' = Some v \<and>
      py_isinstance h v TStr = Inr False \<longrightarrow>
      validate_config h config = Inl (TypeError (msg_wrong_type ''suite_name'' TStr)))"
proof (intro conjI impI)
  assume a: "checks_of h config = Some es \<and> field h config ''suite_name'' = None"
  then show "validate_config h config = Inl (ValueError (msg_required ''suite_name''))"
    using suite_name_error [of h config es] vf_missing [OF checks_of_mapping, of h config es]
    by simp
next
  assume a: "checks_of h config = Some es \<and> field h config ''suite_name'' = Some v \<and>
      py_isinstance h v TStr = Inr False"
  then show "validate_config h config = Inl (TypeError (msg_wrong_type ''suite_name'' TStr))"
    using suite_name_error [of h config es] vf_wrong_type [of h config "''suite_name''" v TStr True]
    by simp
next
  assume a: "validate_fields h required_global config True = Inl e"
  then show "validate_config h config = Inl e" by (rule validate_config_global_error)
  show "e \<noteq> ValueError msg_empty_checks"
  proof
    assume "e = ValueError msg_empty_checks"
    with a vfs_value_error [of h required_global config True msg_empty_checks]
    show False using msg_distinct by (auto simp: required_global_def)
  qed
next
  assume a: "has_text h config ''suite_name'' \<and> checks_of h config = Some es \<and>
      validate_checks h es = Inl e"
  then show "validate_config h config = Inl e"
    by (simp add: validate_config_unfold [of h config es])
  from a show "e \<noteq> ValueError msg_empty_checks"
    using validate_checks_not_empty_error [of h es] by auto
next
  show "validate_config h config = Inl (ValueError msg_empty_checks) \<longleftrightarrow>
      has_text h config ''suite_name'' \<and> checks_of h config = Some []"
  proof (cases "validate_fields h required_global config True")
    case (Inl err)
    then have "validate_config h config = Inl err" by (rule validate_config_global_error)
    moreover have "err \<noteq> ValueError msg_empty_checks"
      using Inl vfs_value_error [of h required_global config True msg_empty_checks] msg_distinct
      by (auto simp: required_global_def)
    moreover have "\<not> (has_text h config ''suite_name'' \<and> checks_of h config = Some [])"
      using Inl required_global_ok [of h config] by auto
    ultimately show ?thesis by auto
  next
    case (Inr u)
    then obtain es' where es: "checks_of h config = Some es'"
      and name: "has_text h config ''suite_name''"
      using required_global_ok [of h config] by auto
    show ?thesis
      using validate_config_unfold [OF name es] validate_checks_not_empty_error [of h es'] name es
      by (auto split: sum.splits if_splits)
  qed
qed

theorem validate_config_order_witness:
  "validate_config h_no_name (PRef 1) = Inl (ValueError (msg_required ''suite_name'')) \<and>
   ValueError (msg_required ''suite_name'') \<noteq> ValueError msg_empty_checks \<and>
   checks_of h_no_name (PRef 1) = Some [] \<and> field h_no_name (PRef 1) ''suite_name'' = None \<and>
   validate_config h_no_checks (PRef 1) = Inl (ValueError msg_empty_checks)"
proof -
  have a: "validate_fields h_no_name required_global (PRef 1) True =
      Inl (ValueError (msg_required ''suite_name''))"
    by code_simp
  have b: "has_text h_no_checks (PRef 1) ''suite_name'' \<and> checks_of h_no_checks (PRef 1) = Some []"
    by code_simp
  have c: "checks_of h_no_name (PRef 1) = Some []" "field h_no_name (PRef 1) ''suite_name'' = None"
    by code_simp+
  show ?thesis
    using a b c
      validate_config_order [where h = h_no_name and config = "PRef 1"
        and e = "ValueError (msg_required ''suite_name'')" and es = "[]"]
      validate_config_order [where h = h_no_checks and config = "PRef 1"
        and e = "ValueError msg_empty_checks" and es = "[]"]
    by blast
qed

subsection \<open>Success of validation\<close>

text \<open>
  Claim C3, as amended. Validation fails for every configuration that lacks \<^verbatim>\<open>suite_name\<close> or
  \<^verbatim>\<open>checks\<close> or whose \<^verbatim>\<open>checks\<close> is the empty list. It succeeds exactly when \<^verbatim>\<open>suite_name\<close>
  is a text, \<^verbatim>\<open>checks\<close> is a list with at least one entry, and every entry is a mapping
  with a text \<^verbatim>\<open>check_id\<close>, a mapping \<^verbatim>\<open>parameters\<close>, a text \<^verbatim>\<open>check_name\<close> and, if it has a
  \<^verbatim>\<open>check_level\<close>, one of the three allowed texts.
\<close>

theorem validate_config_success_iff:
  "(field h config ''suite_name'' = None \<or> field h config ''checks'' = None \<or>
      checks_of h config = Some [] \<longrightarrow> (\<exists>e. validate_config h config = Inl e)) \<and>
   (validate_config h config = Inr () \<longleftrightarrow>
      has_text h config ''suite_name'' \<and>
      (\<exists>entries. checks_of h config = Some entries \<and> entries \<noteq> [] \<and>
         list_all (entry_ok h) entries))"
proof -
  have iff: "validate_config h config = Inr () \<longleftrightarrow>
      has_text h config ''suite_name'' \<and>
      (\<exists>entries. checks_of h config = Some entries \<and> entries \<noteq> [] \<and>
         list_all (entry_ok h) entries)"
    by (auto simp: validate_config_ok config_ok_def split: option.splits)
  have "\<exists>e. validate_config h config = Inl e"
    if "field h config ''suite_name'' = None \<or> field h config ''checks'' = None \<or>
      checks_of h config = Some []"
  proof -
    from that have "validate_config h config \<noteq> Inr ()"
      unfolding iff by (auto simp: has_text_def checks_of_def)
    then show ?thesis by (cases "validate_config h config") auto
  qed
  with iff show ?thesis by blast
qed

theorem validate_config_success_iff_witness:
  "field h_no_name (PRef 1) ''suite_name'' = None \<and>
   validate_config h_no_name (PRef 1) \<noteq> Inr () \<and>
   checks_of h_valid (PRef 3) = Some [PRef 1] \<and> entry_ok h_valid (PRef 1) \<and>
   validate_config h_valid (PRef 3) = Inr ()"
proof -
  have a: "field h_no_name (PRef 1) ''suite_name'' = None"
    by code_simp
  have b: "has_text h_valid (PRef 3) ''suite_name''" "checks_of h_valid (PRef 3) = Some [PRef 1]"
    "entry_ok h_valid (PRef 1)"
    by code_simp+
  from a validate_config_success_iff [of h_no_name "PRef 1"]
  have "validate_config h_no_name (PRef 1) \<noteq> Inr ()" by auto
  moreover from b validate_config_success_iff [of h_valid "PRef 3"]
  have "validate_config h_valid (PRef 3) = Inr ()" by simp
  ultimately show ?thesis using a b by simp
qed

text \<open>
  Claim C3 as stated fails: in the fourth invalid configuration of \<^verbatim>\<open>test_missing_keys\<close>
  both top-level fields are present with the right types and \<^verbatim>\<open>checks\<close> has one entry, and
  validation raises \<^verbatim>\<open>ValueError\<close> for the entry's missing \<^verbatim>\<open>parameters\<close>.
\<close>

theorem validate_config_typed_fields_counterexample:
  "has_text h_missing_parameters (PRef 2) ''suite_name'' \<and>
   checks_of h_missing_parameters (PRef 2) = Some [PRef 0] \<and>
   validate_config h_missing_parameters (PRef 2) = Inl (ValueError (msg_required ''parameters''))"
  by code_simp


subsection \<open>The exception for a value of the wrong type\<close>

lemma validate_checks_first_error:
  "list_all (entry_ok h) pre \<Longrightarrow> validate_check_info h e = Inl err \<Longrightarrow>
   validate_checks h (pre @ e # post) = Inl err"
  by (simp add: validate_checks_append validate_checks_ok [symmetric])

lemma validate_config_entry_error:
  assumes "has_text h config ''suite_name''" and "checks_of h config = Some (pre @ e # post)"
    and "list_all (entry_ok h) pre" and "validate_check_info h e = Inl err"
  shows "validate_config h config = Inl err"
  using validate_config_unfold [OF assms(1,2)] validate_checks_first_error [OF assms(3,4)]
  by simp

lemma validate_fields_first_error:
  "validate_fields h before d r = Inr () \<Longrightarrow> validate_field h key t d r = Inl err \<Longrightarrow>
   validate_fields h (before @ (key, t) # rest) d r = Inl err"
  by (simp add: validate_fields_append)

text \<open>
  Claim C4, as amended. When a check entry binds a required field to a value that is not
  an instance of the declared type, the check of that field raises the \<^verbatim>\<open>TypeError\<close> for
  the field. Validation of the configuration raises that \<^verbatim>\<open>TypeError\<close> when no earlier check
  fails: \<^verbatim>\<open>suite_name\<close> and \<^verbatim>\<open>checks\<close> are valid, the entries before this one are valid,
  and the required fields checked before this field (in the order \<^verbatim>\<open>check_id\<close>,
  \<^verbatim>\<open>parameters\<close>, \<^verbatim>\<open>check_name\<close>) pass their checks.
\<close>

theorem wrong_type_raises_type_error:
  assumes "field h check_info key = Some v" and "py_isinstance h v t = Inr False"
  shows "validate_field h key t check_info True = Inl (TypeError (msg_wrong_type key t)) \<and>
    (has_text h config ''suite_name'' \<and> checks_of h config = Some (pre @ check_info # post) \<and>
     list_all (entry_ok h) pre \<and> required_percheck = before @ (key, t) # rest \<and>
     validate_fields h before check_info True = Inr () \<longrightarrow>
     validate_config h config = Inl (TypeError (msg_wrong_type key t)))"
proof (intro conjI impI)
  show field: "validate_field h key t check_info True = Inl (TypeError (msg_wrong_type key t))"
    using assms by (rule vf_wrong_type)
  assume a: "has_text h config ''suite_name'' \<and>
     checks_of h config = Some (pre @ check_info # post) \<and>
     list_all (entry_ok h) pre \<and> required_percheck = before @ (key, t) # rest \<and>
     validate_fields h before check_info True = Inr ()"
  then have "validate_fields h required_percheck check_info True =
      Inl (TypeError (msg_wrong_type key t))"
    using validate_fields_first_error [of h before check_info True key t _ rest] field by simp
  then have "validate_check_info h check_info = Inl (TypeError (msg_wrong_type key t))"
    by (simp add: validate_check_info_def)
  with a show "validate_config h config = Inl (TypeError (msg_wrong_type key t))"
    using validate_config_entry_error [of h config pre check_info post] by simp
qed

theorem wrong_type_raises_type_error_witness:
  "field h_wrong_check_id (PRef 2) ''check_id'' = Some (PRef 0) \<and>
   py_isinstance h_wrong_check_id (PRef 0) TStr = Inr False \<and>
   validate_field h_wrong_check_id ''check_id'' TStr (PRef 2) True =
     Inl (TypeError (msg_wrong_type ''check_id'' TStr)) \<and>
   validate_config h_wrong_check_id (PRef 4) = Inl (TypeError (msg_wrong_type ''check_id'' TStr))"
proof -
  have a: "field h_wrong_check_id (PRef 2) ''check_id'' = Some (PRef 0)"
    and b: "py_isinstance h_wrong_check_id (PRef 0) TStr = Inr False"
    by code_simp+
  have c: "has_text h_wrong_check_id (PRef 4) ''suite_name''"
    "checks_of h_wrong_check_id (PRef 4) = Some ([] @ PRef 2 # [])"
    "list_all (entry_ok h_wrong_check_id) []"
    "required_percheck = [] @ (''check_id'', TStr) # [(''parameters'', TDict), (''check_name'', TStr)]"
    "validate_fields h_wrong_check_id [] (PRef 2) True = Inr ()"
    by code_simp+
  show ?thesis
    using a b c
      wrong_type_raises_type_error [OF a b, where config = "PRef 4" and pre = "[]" and post = "[]"
        and before = "[]" and rest = "[(''parameters'', TDict), (''check_name'', TStr)]"]
    by blast
qed

text \<open>
  Claim C4 as stated fails: an entry that binds \<^verbatim>\<open>check_name\<close> to a mapping and has no
  \<^verbatim>\<open>parameters\<close> is rejected with the \<^verbatim>\<open>ValueError\<close> for the missing field, which is checked
  first.
\<close>

theorem wrong_type_after_missing_field_counterexample:
  "field h_wrong_check_name (PRef 1) ''check_name'' = Some (PRef 0) \<and>
   py_isinstance h_wrong_check_name (PRef 0) TStr = Inr False \<and>
   checks_of h_wrong_check_name (PRef 3) = Some [PRef 1] \<and>
   validate_config h_wrong_check_name (PRef 3) = Inl (ValueError (msg_required ''parameters''))"
  by code_simp

subsection \<open>The exception for a check level outside the enumeration\<close>

lemma level_error_needs_level:
  assumes "validate_check_info h e = Inl (ValueError msg_check_level)"
  shows "field h e ''check_level'' \<noteq> None"
proof -
  have r: "validate_fields h required_percheck e True \<noteq> Inl (ValueError msg_check_level)"
    using vfs_value_error [of h required_percheck e True msg_check_level] msg_distinct
    by (auto simp: required_percheck_def)
  have o: "validate_fields h optional_percheck e False \<noteq> Inl (ValueError msg_check_level)"
    using vfs_value_error [of h optional_percheck e False msg_check_level] msg_distinct
    by (auto simp: optional_percheck_def)
  from assms r o have req: "validate_fields h required_percheck e True = Inr ()"
    and lv: "validate_level h e = Inl (ValueError msg_check_level)"
    by (auto simp: validate_check_info_def split: sum.splits)
  from req have "is_mapping h e"
    by (auto simp: required_percheck_ok dest: has_text_mapping)
  from validate_level_mapping [OF this] lv show ?thesis
    by (auto split: option.splits)
qed

text \<open>
  Claim C6, as amended. For a check entry whose three required fields pass their checks and
  whose \<^verbatim>\<open>check_level\<close> is a text other than \<^verbatim>\<open>HIGH\<close>, \<^verbatim>\<open>MEDIUM\<close>, \<^verbatim>\<open>LOW\<close>, the validation of
  the entry raises the \<^verbatim>\<open>ValueError\<close> for the check level, and so does the validation of a
  configuration whose top-level fields and earlier entries are valid. For an entry without
  \<^verbatim>\<open>check_level\<close> that exception is not raised.
\<close>

theorem bad_check_level_raises_value_error:
  "(has_text h e ''check_id'' \<and> has_mapping h e ''parameters'' \<and> has_text h e ''check_name'' \<and>
      field h e ''check_level'' = Some (PStr s) \<and> s \<notin> set allowed_levels \<longrightarrow>
      validate_check_info h e = Inl (ValueError msg_check_level) \<and>
      (has_text h config ''suite_name'' \<and> checks_of h config = Some (pre @ e # post) \<and>
         list_all (entry_ok h) pre \<longrightarrow>
         validate_config h config = Inl (ValueError msg_check_level))) \<and>
   (field h e ''check_level'' = None \<longrightarrow>
      validate_level h e \<noteq> Inl (ValueError msg_check_level) \<and>
      validate_check_info h e \<noteq> Inl (ValueError msg_check_level))"
proof (intro conjI impI)
  assume a: "has_text h e ''check_id'' \<and> has_mapping h e ''parameters'' \<and>
      has_text h e ''check_name'' \<and>
      field h e ''check_level'' = Some (PStr s) \<and> s \<notin> set allowed_levels"
  then have m: "is_mapping h e" by (auto dest: has_text_mapping)
  from a have "validate_fields h required_percheck e True = Inr ()"
    by (simp add: required_percheck_ok)
  moreover from a have "validate_fields h optional_percheck e False = Inr ()"
    by (simp add: optional_percheck_ok [OF m])
  moreover from a have "validate_level h e = Inl (ValueError msg_check_level)"
    by (auto simp: validate_level_mapping [OF m])
  ultimately show e: "validate_check_info h e = Inl (ValueError msg_check_level)"
    by (simp add: validate_check_info_def)
  assume "has_text h config ''suite_name'' \<and> checks_of h config = Some (pre @ e # post) \<and>
         list_all (entry_ok h) pre"
  with e show "validate_config h config = Inl (ValueError msg_check_level)"
    using validate_config_entry_error [of h config pre e post] by simp
next
  assume a: "field h e ''check_level'' = None"
  show "validate_level h e \<noteq> Inl (ValueError msg_check_level)"
    using a
    by (auto simp: validate_level_def py_contains_def py_getitem_def field_def
        split: pyval.splits option.splits pyobj.splits sum.splits bool.splits)
  show "validate_check_info h e \<noteq> Inl (ValueError msg_check_level)"
    using a level_error_needs_level [of h e] by auto
qed

theorem bad_check_level_raises_value_error_witness:
  "field h_bad_level (PRef 1) ''check_level'' = Some (PStr ''CRITICAL'') \<and>
   ''CRITICAL'' \<notin> set allowed_levels \<and>
   validate_check_info h_bad_level (PRef 1) = Inl (ValueError msg_check_level) \<and>
   validate_config h_bad_level (PRef 3) = Inl (ValueError msg_check_level) \<and>
   field h_valid (PRef 1) ''check_level'' = None \<and>
   validate_check_info h_valid (PRef 1) \<noteq> Inl (ValueError msg_check_level)"
proof -
  have a: "has_text h_bad_level (PRef 1) ''check_id''"
    "has_mapping h_bad_level (PRef 1) ''parameters''"
    "has_text h_bad_level (PRef 1) ''check_name''"
    "field h_bad_level (PRef 1) ''check_level'' = Some (PStr ''CRITICAL'')"
    "''CRITICAL'' \<notin> set allowed_levels"
    by code_simp+
  have b: "has_text h_bad_level (PRef 3) ''suite_name''"
    "checks_of h_bad_level (PRef 3) = Some ([] @ PRef 1 # [])"
    "list_all (entry_ok h_bad_level) []"
    by code_simp+
  have c: "field h_valid (PRef 1) ''check_level'' = None"
    by code_simp
  show ?thesis
    using a b c
      bad_check_level_raises_value_error [where h = h_bad_level and e = "PRef 1"
        and s = "''CRITICAL''" and config = "PRef 3" and pre = "[]" and post = "[]"]
      bad_check_level_raises_value_error [where h = h_valid and e = "PRef 1"]
    by blast
qed

text \<open>
  Claim C6 as stated fails: an entry with \<^verbatim>\<open>"check_level": "CRITICAL"\<close> whose \<^verbatim>\<open>check_id\<close> is a
  mapping is rejected with the \<^verbatim>\<open>TypeError\<close> for \<^verbatim>\<open>check_id\<close>, which is checked first.
\<close>

theorem bad_check_level_after_wrong_type_counterexample:
  "field h_bad_level_wrong_id (PRef 2) ''check_level'' = Some (PStr ''CRITICAL'') \<and>
   ''CRITICAL'' \<notin> set allowed_levels \<and>
   checks_of h_bad_level_wrong_id (PRef 4) = Some [PRef 2] \<and>
   validate_config h_bad_level_wrong_id (PRef 4) =
     Inl (TypeError (msg_wrong_type ''check_id'' TStr))"
  by code_simp


section \<open>Properties of the Suite Assembler\<close>

subsection \<open>Reading a store that has grown\<close>

lemma deref_append: "deref h a = Some obj \<Longrightarrow> deref (h @ ext) a = Some obj"
  by (auto simp: deref_def nth_append split: if_splits)

lemma deref_fresh: "deref (h @ [obj]) (length h) = Some obj"
  by (simp add: deref_def)

lemma is_mapping_iff: "is_mapping h v \<longleftrightarrow> (\<exists>a kvs. v = PRef a \<and> deref h a = Some (ODict kvs))"
  by (cases v) (auto simp: is_mapping_def py_class_def split: option.splits pyobj.splits)

lemma has_text_iff: "has_text h d key \<longleftrightarrow> (\<exists>s. field h d key = Some (PStr s))"
proof (cases "field h d key")
  case None
  then show ?thesis by (simp add: has_text_def)
next
  case (Some v)
  then show ?thesis by (cases v) (simp_all add: has_text_def)
qed

lemma field_iff:
  "field h d key = Some v \<longleftrightarrow>
     (\<exists>a kvs. d = PRef a \<and> deref h a = Some (ODict kvs) \<and> dict_get kvs (PStr key) = Some v)"
  by (cases d) (auto simp: field_def split: option.splits pyobj.splits)

lemma entry_okE:
  assumes "entry_ok h e"
  obtains ea kvs cid pa items cn where
    "e = PRef ea" "deref h ea = Some (ODict kvs)"
    "dict_get kvs (PStr ''check_id'') = Some (PStr cid)"
    "dict_get kvs (PStr ''parameters'') = Some (PRef pa)" "deref h pa = Some (ODict items)"
    "dict_get kvs (PStr ''check_name'') = Some (PStr cn)"
proof -
  from assms obtain cid cn pv where
    f: "field h e ''check_id'' = Some (PStr cid)" "field h e ''check_name'' = Some (PStr cn)"
      "field h e ''parameters'' = Some pv" and m: "is_mapping h pv"
    by (auto simp: entry_ok_def has_text_iff has_mapping_def split: option.splits)
  from m obtain pa items where "pv = PRef pa" "deref h pa = Some (ODict items)"
    by (auto simp: is_mapping_iff)
  with f that show thesis
    by (auto simp: field_iff)
qed

lemma field_append: "is_mapping h d \<Longrightarrow> field (h @ ext) d key = field h d key"
  by (auto simp: field_def is_mapping_def py_class_def deref_append
        split: pyval.splits option.splits pyobj.splits)

lemma is_mapping_append: "is_mapping h d \<Longrightarrow> is_mapping (h @ ext) d"
  by (auto simp: is_mapping_def py_class_def deref_append
        split: pyval.splits option.splits pyobj.splits)

lemma entry_ok_mapping: "entry_ok h e \<Longrightarrow> is_mapping h e"
  by (auto simp: entry_ok_def dest: has_text_mapping)

lemma entry_ok_append: "entry_ok h e \<Longrightarrow> entry_ok (h @ ext) e"
  by (frule entry_ok_mapping)
     (auto simp: entry_ok_def has_text_def has_mapping_def level_ok_def field_append
        is_mapping_append split: option.splits)

lemma entry_items_append: "entry_ok h e \<Longrightarrow> entry_items (h @ ext) e = entry_items h e"
  by (frule entry_ok_mapping)
     (auto simp: entry_ok_def has_mapping_def entry_items_def field_append is_mapping_def
        py_class_def deref_append split: option.splits pyval.splits pyobj.splits)

lemma entry_level_append: "entry_ok h e \<Longrightarrow> entry_level (h @ ext) e = entry_level h e"
  by (frule entry_ok_mapping) (simp add: entry_level_def field_append)

lemma method_name_of_append:
  "entry_ok h e \<Longrightarrow> method_name_of (h @ ext) e = method_name_of h e"
  by (erule entry_okE) (simp add: method_name_of_def py_getitem_def deref_append)

lemma resolve_check_append:
  "entry_ok h e \<Longrightarrow> resolve_check env (h @ ext) e = resolve_check env h e"
  by (erule entry_okE) (simp add: resolve_check_def py_getitem_def deref_append)

subsection \<open>One iteration of the loop\<close>

lemma method_name_of_valid:
  "entry_ok h e \<Longrightarrow> \<exists>cid. field h e ''check_id'' = Some (PStr cid) \<and>
     method_name_of h e = Inr (''check_'' @ cid)"
  by (erule entry_okE)
     (simp add: method_name_of_def py_getitem_def field_def format_method_name_def)

lemma merge_parameters_valid:
  assumes "entry_ok h e"
  shows "merge_parameters h check_cls e =
    (Inr (PRef (length h)), h @ [ODict (merged_parameters check_cls (entry_items h e))])"
  using assms
  by (elim entry_okE)
     (simp add: merge_parameters_def alloc_def py_update_def deref_fresh py_getitem_def
        deref_append py_items_def merged_parameters_def entry_items_def field_def)

lemma py_get_valid:
  "is_mapping h e \<Longrightarrow> py_get h e key dflt = Inr (case field h e key of None \<Rightarrow> dflt | Some v \<Rightarrow> v)"
  by (auto simp: py_get_def field_def is_mapping_def py_class_def
        split: pyval.splits option.splits pyobj.splits)

lemma build_check_valid:
  assumes e: "entry_ok h e" and m: "method_name_of h e = Inr method_name"
    and c: "resolve_check env h e = Inr check_cls"
  shows "build_check env h e =
    (case validate_parameters (h @ [ODict (merged_parameters check_cls (entry_items h e))])
            check_cls (PRef (length h)) of
       Inl err \<Rightarrow> (Inl err, h @ [ODict (merged_parameters check_cls (entry_items h e))])
     | Inr u \<Rightarrow>
         (Inr (method_name,
               \<lparr>inst_class = check_cls, kwargs = PRef (length h), level = entry_level h e\<rparr>,
               py_set (supported_ds check_cls)),
          h @ [ODict (merged_parameters check_cls (entry_items h e))]))"
proof -
  have "py_get (h @ [ODict (merged_parameters check_cls (entry_items h e))]) e ''check_level'' PNone
      = Inr (entry_level h e)"
    using entry_ok_mapping [OF e]
    by (simp add: py_get_valid is_mapping_append field_append entry_level_def)
  then show ?thesis
    by (simp add: build_check_def m c merge_parameters_valid [OF e] split: sum.splits)
qed

lemma add_method_simp [simp]:
  "add_method (m, i, s) cp = AList.update m (Method i) cp"
  by (simp add: add_method_def)

lemma build_check_unresolved:
  "entry_ok h e \<Longrightarrow> resolve_check env h e = Inl err \<Longrightarrow> build_check env h e = (Inl err, h)"
  using method_name_of_valid [of h e] by (auto simp: build_check_def)

lemma build_check_valid_success:
  assumes e: "entry_ok h0 e" and b: "build_check env (h0 @ ext) e = (Inr t, h1)"
  shows "\<exists>obj. h1 = h0 @ ext @ [obj] \<and> (\<forall>added. entry_built env h0 (h1 @ added) e t) \<and>
    validate_parameters h1 (inst_class (fst (snd t))) (PRef (length (h0 @ ext))) = Inr () \<and>
    obj = ODict (merged_parameters (inst_class (fst (snd t))) (entry_items h0 e)) \<and>
    kwargs (fst (snd t)) = PRef (length (h0 @ ext))"
proof -
  have e': "entry_ok (h0 @ ext) e" using e by (rule entry_ok_append)
  obtain cid where m: "method_name_of (h0 @ ext) e = Inr (''check_'' @ cid)"
    using method_name_of_valid [OF e'] by blast
  show ?thesis
  proof (cases "resolve_check env (h0 @ ext) e")
    case (Inl err)
    with build_check_unresolved [OF e' this] b show ?thesis by simp
  next
    case (Inr check_cls)
    let ?obj = "ODict (merged_parameters check_cls (entry_items h0 e))"
    from build_check_valid [OF e' m Inr] b
    have v: "validate_parameters (h0 @ ext @ [?obj]) check_cls (PRef (length (h0 @ ext))) = Inr ()"
      and t: "t = (''check_'' @ cid,
          \<lparr>inst_class = check_cls, kwargs = PRef (length (h0 @ ext)), level = entry_level h0 e\<rparr>,
          py_set (supported_ds check_cls))"
      and h1: "h1 = h0 @ ext @ [?obj]"
      by (auto simp: entry_items_append [OF e] entry_level_append [OF e] split: sum.splits)
    have "entry_built env h0 (h1 @ added) e t" for added
      using m Inr
      by (simp add: entry_built_def t h1 method_name_of_append [OF e] resolve_check_append [OF e]
            deref_def nth_append)
    with v t h1 show ?thesis by simp
  qed
qed

subsection \<open>The store only grows\<close>

lemma merge_parameters_store:
  "merge_parameters h check_cls e = (r, h') \<Longrightarrow> \<exists>obj. h' = h @ [obj]"
  by (auto simp: merge_parameters_def alloc_def py_update_def deref_fresh deref_def
        split: sum.splits pyval.splits option.splits pyobj.splits if_splits)

lemma build_check_store:
  "build_check env h e = (r, h') \<Longrightarrow> h' = h \<or> (\<exists>obj. h' = h @ [obj])"
  by (auto simp: build_check_def split: sum.splits prod.splits dest: merge_parameters_store)

lemma build_checks_store:
  "build_checks env es h cp sets = (r, h') \<Longrightarrow> \<exists>ext. h' = h @ ext"
proof (induction es arbitrary: h cp sets)
  case Nil
  then show ?case by simp
next
  case (Cons e es)
  obtain r1 h1 where b: "build_check env h e = (r1, h1)" by (cases "build_check env h e")
  then obtain ext1 where h1: "h1 = h @ ext1"
    using build_check_store [OF b] by auto
  show ?case
  proof (cases r1)
    case (Inl err)
    with Cons.prems b h1 show ?thesis by auto
  next
    case (Inr t)
    obtain m i s where t: "t = (m, i, s)" by (cases t)
    from Cons.prems b Inr t
    have "build_checks env es h1 (AList.update m (Method i) cp) (sets @ [s]) = (r, h')" by simp
    from Cons.IH [OF this] h1 show ?thesis by auto
  qed
qed


subsection \<open>The loop over valid entries\<close>

lemma entry_built_append:
  "entry_built env h0 h' e t \<Longrightarrow> entry_built env h0 (h' @ added) e t"
  by (auto simp: entry_built_def deref_append split: prod.splits pyval.splits)

lemma upt_shift: "[n ..< n + Suc k] = n # [Suc n ..< Suc n + k]"
  by (simp add: upt_conv_Cons)

lemma build_checks_valid:
  assumes "list_all (entry_ok h0) es"
    and "build_checks env es (h0 @ ext) cp sets = (Inr (cp', sets'), h')"
  shows "\<exists>built added. list_all2 (entry_built env h0 h') es built \<and>
    cp' = fold add_method built cp \<and>
    sets' = sets @ map (\<lambda>b. snd (snd b)) built \<and> h' = h0 @ ext @ added \<and>
    map (\<lambda>b. kwargs (fst (snd b))) built =
      map PRef [length (h0 @ ext) ..< length (h0 @ ext) + length es]"
  using assms
proof (induction es arbitrary: ext cp sets)
  case Nil
  then show ?case by auto
next
  case (Cons e es)
  from Cons.prems have e: "entry_ok h0 e" and es: "list_all (entry_ok h0) es" by simp_all
  obtain r1 h1 where b: "build_check env (h0 @ ext) e = (r1, h1)"
    by (cases "build_check env (h0 @ ext) e")
  show ?case
  proof (cases r1)
    case (Inl err)
    with Cons.prems b show ?thesis by simp
  next
    case (Inr t)
    obtain m i s where t: "t = (m, i, s)" by (cases t)
    from build_check_valid_success [OF e b [unfolded Inr]]
    obtain obj where h1: "h1 = h0 @ ext @ [obj]"
      and built: "\<And>added. entry_built env h0 (h1 @ added) e t"
      and kw: "kwargs (fst (snd t)) = PRef (length (h0 @ ext))" by blast
    from Cons.prems b Inr t h1
    have "build_checks env es (h0 @ (ext @ [obj])) (AList.update m (Method i) cp) (sets @ [s])
        = (Inr (cp', sets'), h')" by simp
    from Cons.IH [OF es this] obtain built' added where
      IH: "list_all2 (entry_built env h0 h') es built'"
        "cp' = fold add_method built' (AList.update m (Method i) cp)"
        "sets' = (sets @ [s]) @ map (\<lambda>b. snd (snd b)) built'"
        "h' = h0 @ (ext @ [obj]) @ added"
        "map (\<lambda>b. kwargs (fst (snd b))) built' =
           map PRef [length (h0 @ ext @ [obj]) ..< length (h0 @ ext @ [obj]) + length es]" by blast
    from built [of added] IH(4) h1 have "entry_built env h0 h' e t" by simp
    moreover have "[length (h0 @ ext) ..< length (h0 @ ext) + length (e # es)] =
        length (h0 @ ext) # [length (h0 @ ext @ [obj]) ..< length (h0 @ ext @ [obj]) + length es]"
      using upt_shift [of "length (h0 @ ext)" "length es"] by simp
    ultimately show ?thesis
      using IH t kw
      by (intro exI [of _ "t # built'"] exI [of _ "obj # added"]) simp
  qed
qed

lemma build_checks_length:
  "build_checks env es h cp sets = (Inr (cp', sets'), h') \<Longrightarrow>
   length sets' = length sets + length es"
proof (induction es arbitrary: h cp sets)
  case Nil
  then show ?case by simp
next
  case (Cons e es)
  then show ?case
    by (auto split: prod.splits sum.splits dest!: Cons.IH)
qed

lemma set_fold_filter:
  "set (fold (\<lambda>t acc. filter (\<lambda>x. x \<in> set t) acc) ss s) = set s \<inter> (\<Inter>t\<in>set ss. set t)"
  by (induction ss arbitrary: s) auto

lemma set_intersection_set:
  "set_intersection sets = Inr common \<Longrightarrow> sets \<noteq> [] \<and> set common = (\<Inter>t\<in>set sets. set t)"
  by (cases sets) (auto simp: set_fold_filter)

lemma set_intersection_nonempty: "sets \<noteq> [] \<Longrightarrow> \<exists>common. set_intersection sets = Inr common"
  by (cases sets) auto

subsection \<open>The whole operation on a valid configuration\<close>

lemma config_okE:
  assumes "config_ok h config"
  obtains name es where "field h config ''suite_name'' = Some (PStr name)"
    "checks_of h config = Some es" "es \<noteq> []" "list_all (entry_ok h) es"
  using assms by (auto simp: config_ok_def has_text_iff split: option.splits)

lemma suite_name_append:
  "field h config ''suite_name'' = Some (PStr name) \<Longrightarrow>
   py_getitem (h @ ext) config ''suite_name'' = Inr (PStr name)"
  by (auto simp: field_iff py_getitem_def deref_append)

lemma assemble_valid:
  assumes name: "field h config ''suite_name'' = Some (PStr name)"
    and es: "checks_of h config = Some es" "es \<noteq> []" "list_all (entry_ok h) es"
  shows "assemble env h config =
    (case build_checks env es h [] [] of
       (Inl e, h') \<Rightarrow> (Inl e, h')
     | (Inr (class_properties, supported_ds_sets), h') \<Rightarrow>
         (case set_intersection supported_ds_sets of
            Inl e \<Rightarrow> (Inl e, h')
          | Inr common \<Rightarrow>
              (make_type (PStr name)
                 (AList.update ''supported_ds'' (Attribute common) class_properties),
               h')))"
proof -
  have ok: "validate_config h config = Inr ()"
    using assms by (simp add: validate_config_ok config_ok_def has_text_iff)
  obtain b where reads: "py_getitem h config ''checks'' = Inr (PRef b)" "py_iter h (PRef b) = Inr es"
    using checks_of_reads [OF es(1)] by blast
  show ?thesis
  proof (cases "build_checks env es h [] []")
    case (Pair r h')
    then obtain added where "h' = h @ added" using build_checks_store by blast
    with suite_name_append [OF name] have "py_getitem h' config ''suite_name'' = Inr (PStr name)"
      by simp
    with ok reads Pair show ?thesis
      by (simp add: assemble_def split: sum.splits prod.splits)
  qed
qed

lemma make_type_text:
  "make_type (PStr name) class_properties = Inr c \<longleftrightarrow>
     CHR 0x00 \<notin> set name \<and> c = \<lparr>cls_name = name, cls_dict = class_properties\<rparr>"
  by (auto simp: make_type_def)

lemma assemble_success:
  assumes "assemble env h config = (Inr c, h')"
  obtains name es built added common where
    "field h config ''suite_name'' = Some (PStr name)"
    "checks_of h config = Some es" "es \<noteq> []" "list_all (entry_ok h) es"
    "list_all2 (entry_built env h h') es built" "h' = h @ added"
    "map (\<lambda>b. kwargs (fst (snd b))) built = map PRef [length h ..< length h + length es]"
    "set_intersection (map (\<lambda>b. snd (snd b)) built) = Inr common"
    "c = \<lparr>cls_name = name,
          cls_dict = AList.update ''supported_ds'' (Attribute common) (fold add_method built [])\<rparr>"
    "CHR 0x00 \<notin> set name"
proof -
  from assms have "validate_config h config = Inr ()"
    by (auto simp: assemble_def split: sum.splits)
  then have "config_ok h config" by (simp add: validate_config_ok)
  then obtain name es where c: "field h config ''suite_name'' = Some (PStr name)"
    "checks_of h config = Some es" "es \<noteq> []" "list_all (entry_ok h) es"
    by (rule config_okE)
  from assms assemble_valid [OF c, of env]
  obtain cp sets common where run: "build_checks env es (h @ []) [] [] = (Inr (cp, sets), h')"
    and i: "set_intersection sets = Inr common"
    and r: "c = \<lparr>cls_name = name, cls_dict = AList.update ''supported_ds'' (Attribute common) cp\<rparr>"
    and nul: "CHR 0x00 \<notin> set name"
    by (auto simp: make_type_text split: prod.splits sum.splits)
  from build_checks_valid [OF c(4) run] obtain built added where
    "list_all2 (entry_built env h h') es built" "cp = fold add_method built []"
    "sets = map (\<lambda>b. snd (snd b)) built" "h' = h @ added"
    "map (\<lambda>b. kwargs (fst (snd b))) built = map PRef [length h ..< length h + length es]"
    by auto
  with c i r nul that show thesis by blast
qed


text \<open>
  A suite name with a null character passes \<open>validate_config\<close>; the loop runs, and
  \<^verbatim>\<open>type\<close> raises \<^verbatim>\<open>ValueError\<close> at the end.
\<close>

lemma null_character_in_suite_name:
  "validate_config h_null_name (PRef 3) = Inr () \<and>
   (case get_checker_class tests_env h_null_name (PRef 3) of
      (Inl e, h') \<Rightarrow> e = ValueError msg_null_character
    | (Inr c, h') \<Rightarrow> False)"
  by code_simp

lemma load_config_structure:
  "(\<forall>filename. config \<noteq> PStr filename) \<Longrightarrow> load_config env h config = (Inr config, h)"
  by (cases config) (simp_all add: load_config_def)

lemma get_checker_class_loaded:
  "load_config env h config = (Inr cfg, h1) \<Longrightarrow>
   get_checker_class env h config = assemble env h1 cfg"
  by (simp add: get_checker_class_def)

lemma succeeded_cases:
  "(case x of (Inr p, h') \<Rightarrow> True | (Inl e, h') \<Rightarrow> False) \<Longrightarrow> \<exists>p h'. x = (Inr p, h')"
  by (auto split: prod.splits sum.splits)

lemma entry_builtD:
  assumes "entry_built env h h' e b"
  shows "method_name_of h e = Inr (fst b)"
    and "resolve_check env h e = Inr (inst_class (fst (snd b)))"
    and "level (fst (snd b)) = entry_level h e"
    and "snd (snd b) = py_set (supported_ds (inst_class (fst (snd b))))"
    and "\<exists>a. kwargs (fst (snd b)) = PRef a \<and> length h \<le> a \<and>
      deref h' a = Some (ODict (merged_parameters (inst_class (fst (snd b))) (entry_items h e)))"
  using assms by (auto simp: entry_built_def split: prod.splits pyval.splits)

lemma built_sets:
  "list_all2 (entry_built env h h') es built \<Longrightarrow>
   map (\<lambda>b. snd (snd b)) built =
     map (\<lambda>check_cls. py_set (supported_ds check_cls)) (map (\<lambda>b. inst_class (fst (snd b))) built)"
proof (induction rule: list_all2_induct)
  case Nil
  then show ?case by simp
next
  case (Cons e es b built)
  from entry_builtD(4) [OF Cons.hyps(1)] Cons.IH show ?case by simp
qed

lemma built_classes:
  "list_all2 (entry_built env h h') es built \<Longrightarrow>
   list_all2 (\<lambda>e check_cls. resolve_check env h e = Inr check_cls) es
     (map (\<lambda>b. inst_class (fst (snd b))) built)"
proof (induction rule: list_all2_induct)
  case Nil
  then show ?case by simp
next
  case (Cons e es b built)
  from entry_builtD(2) [OF Cons.hyps(1)] Cons.IH show ?case by simp
qed

lemma list_all2_two:
  "list_all2 P [a, b] ys \<Longrightarrow> \<exists>x y. ys = [x, y] \<and> P a x \<and> P b y"
  by (auto simp: list_all2_Cons1)

lemma assemble_store: "assemble env h config = (r, h') \<Longrightarrow> \<exists>added. h' = h @ added"
  by (auto simp: assemble_def split: sum.splits prod.splits dest: build_checks_store)

subsection \<open>The argument list of the intersection\<close>

text \<open>
  Claim C10. When \<open>validate_config\<close> has succeeded and the loop over the entries has run to
  its end, \<^verbatim>\<open>supported_ds_sets\<close> holds one set for every entry and there is at least one;
  \<^verbatim>\<open>set.intersection\<close> does not raise the \<^verbatim>\<open>TypeError\<close> of an empty argument list and
  returns the common dataset types.
\<close>

theorem intersection_has_an_argument:
  assumes "validate_config h config = Inr ()"
    and "py_getitem h config ''checks'' = Inr checks" and "py_iter h checks = Inr entries"
    and "build_checks env entries h [] [] = (Inr (class_properties, supported_ds_sets), h')"
  shows "supported_ds_sets \<noteq> [] \<and> length supported_ds_sets = length entries \<and>
    set_intersection supported_ds_sets \<noteq> Inl (TypeError msg_no_argument) \<and>
    (\<exists>common. set_intersection supported_ds_sets = Inr common)"
proof -
  from assms(1) have "config_ok h config" by (simp add: validate_config_ok)
  then obtain name es where c: "field h config ''suite_name'' = Some (PStr name)"
    "checks_of h config = Some es" "es \<noteq> []" "list_all (entry_ok h) es"
    by (rule config_okE)
  from checks_of_reads [OF c(2)] assms(2,3) have es: "entries = es" by auto
  from build_checks_length [OF assms(4)] have len: "length supported_ds_sets = length entries"
    by simp
  with es c(3) have ne: "supported_ds_sets \<noteq> []" by auto
  then obtain common where i: "set_intersection supported_ds_sets = Inr common"
    using set_intersection_nonempty by blast
  with ne len show ?thesis by simp
qed


theorem intersection_has_an_argument_witness:
  "\<exists>class_properties supported_ds_sets h'.
     build_checks tests_env [PRef 1, PRef 3] h_supported_ds [] [] =
       (Inr (class_properties, supported_ds_sets), h') \<and>
     length supported_ds_sets = 2 \<and>
     (\<exists>common. set_intersection supported_ds_sets = Inr common)"
proof -
  have a: "validate_config h_supported_ds (PRef 5) = Inr ()"
    "py_getitem h_supported_ds (PRef 5) ''checks'' = Inr (PRef 4)"
    "py_iter h_supported_ds (PRef 4) = Inr [PRef 1, PRef 3]"
    by code_simp+
  have "case build_checks tests_env [PRef 1, PRef 3] h_supported_ds [] [] of
      (Inr p, h') \<Rightarrow> True | (Inl e, h') \<Rightarrow> False"
    by code_simp
  from succeeded_cases [OF this] obtain class_properties supported_ds_sets h' where
    b: "build_checks tests_env [PRef 1, PRef 3] h_supported_ds [] [] =
       (Inr (class_properties, supported_ds_sets), h')"
    by fastforce
  from intersection_has_an_argument [OF a b] b show ?thesis by auto
qed

subsection \<open>The supported dataset types of the generated class\<close>

text \<open>
  Claim C1. When \<^verbatim>\<open>get_checker_class\<close> returns a class, every entry of \<^verbatim>\<open>checks\<close> names a check
  class, and the \<^verbatim>\<open>supported_ds\<close> attribute of the generated class, as a set, is the
  intersection of the \<^verbatim>\<open>supported_ds\<close> of these classes; it is empty when the
  \<^verbatim>\<open>supported_ds\<close> of one of them is. The witness is the configuration of
  \<^verbatim>\<open>test_supported_ds\<close>: \<open>{1, 2, 3}\<close> and \<open>{2, 3, 4}\<close> give \<open>{2, 3}\<close>.
\<close>

theorem supported_ds_is_intersection:
  assumes "load_config env h config = (Inr cfg, h1)"
    and "get_checker_class env h config = (Inr c, h')"
  shows "\<exists>entries clss ds.
    checks_of h1 cfg = Some entries \<and>
    list_all2 (\<lambda>e check_cls. resolve_check env h1 e = Inr check_cls) entries clss \<and>
    clss \<noteq> [] \<and> class_supported_ds c = Some ds \<and>
    set ds = (\<Inter>check_cls\<in>set clss. set (supported_ds check_cls)) \<and>
    ((\<exists>check_cls\<in>set clss. supported_ds check_cls = []) \<longrightarrow> ds = [])"
proof -
  from assms have "assemble env h1 cfg = (Inr c, h')"
    by (simp add: get_checker_class_loaded [OF assms(1)])
  then obtain name es built added common where
    es: "checks_of h1 cfg = Some es" "es \<noteq> []"
    and built: "list_all2 (entry_built env h1 h') es built"
    and i: "set_intersection (map (\<lambda>b. snd (snd b)) built) = Inr common"
    and c: "c = \<lparr>cls_name = name,
          cls_dict = AList.update ''supported_ds'' (Attribute common) (fold add_method built [])\<rparr>"
    by (rule assemble_success)
  let ?clss = "map (\<lambda>b. inst_class (fst (snd b))) built"
  from built have r: "list_all2 (\<lambda>e check_cls. resolve_check env h1 e = Inr check_cls) es ?clss"
    by (rule built_classes)
  from built have sets: "map (\<lambda>b. snd (snd b)) built = map (\<lambda>cl. py_set (supported_ds cl)) ?clss"
    by (rule built_sets)
  from built es have ne: "?clss \<noteq> []" by (auto dest: list_all2_lengthD)
  have ds: "class_supported_ds c = Some common"
    by (simp add: c class_supported_ds_def update_conv')
  from set_intersection_set [OF i] sets
  have s: "set common = (\<Inter>check_cls\<in>set ?clss. set (supported_ds check_cls))"
    by (simp add: py_set_def)
  have "common = []" if "\<exists>check_cls\<in>set ?clss. supported_ds check_cls = []"
  proof -
    from that obtain cl where "cl \<in> set ?clss" "supported_ds cl = []" by blast
    with s have "set common \<subseteq> set []" by blast
    then show ?thesis by simp
  qed
  with es r ne ds s show ?thesis by blast
qed

theorem supported_ds_is_intersection_witness:
  "\<exists>c h' ds. get_checker_class tests_env h_supported_ds (PRef 5) = (Inr c, h') \<and>
     class_supported_ds c = Some ds \<and> set ds = {2, 3}"
proof -
  have l: "load_config tests_env h_supported_ds (PRef 5) = (Inr (PRef 5), h_supported_ds)"
    by (simp add: load_config_def)
  have "case get_checker_class tests_env h_supported_ds (PRef 5) of
      (Inr p, h') \<Rightarrow> True | (Inl e, h') \<Rightarrow> False"
    by code_simp
  from succeeded_cases [OF this] obtain c h' where
    g: "get_checker_class tests_env h_supported_ds (PRef 5) = (Inr c, h')" by blast
  have e: "checks_of h_supported_ds (PRef 5) = Some [PRef 1, PRef 3]"
    by code_simp
  have r: "map_sum id supported_ds (resolve_check tests_env h_supported_ds (PRef 1)) = Inr [1, 2, 3]"
    "map_sum id supported_ds (resolve_check tests_env h_supported_ds (PRef 3)) = Inr [2, 3, 4]"
    by code_simp+
  from supported_ds_is_intersection [OF l g] e obtain clss ds where
    a: "list_all2 (\<lambda>e check_cls. resolve_check tests_env h_supported_ds e = Inr check_cls)
          [PRef 1, PRef 3] clss"
    and d: "class_supported_ds c = Some ds"
      "set ds = (\<Inter>check_cls\<in>set clss. set (supported_ds check_cls))"
    by auto
  from list_all2_two [OF a] obtain x y where xy: "clss = [x, y]"
    and x: "resolve_check tests_env h_supported_ds (PRef 1) = Inr x"
    and y: "resolve_check tests_env h_supported_ds (PRef 3) = Inr y" by blast
  from r x y have "supported_ds x = [1, 2, 3]" "supported_ds y = [2, 3, 4]" by simp_all
  with d(2) xy have "set ds = {1, 2, 3} \<inter> {2, 3, 4}" by simp
  then have "set ds = {2, 3}" by auto
  with g d(1) show ?thesis by blast
qed

subsection \<open>The configuration is not written\<close>

text \<open>
  Claim C9. \<open>validate_config\<close> reads the store and produces none; when it raises inside
  \<^verbatim>\<open>get_checker_class\<close>, the store is the one the call started with. \<^verbatim>\<open>get_checker_class\<close>,
  whether it returns a class or raises, only adds objects to the store it works on (the store
  after loading, which for a configuration given as a structure is the store of the call):
  every object that existed before the call, in particular the configuration mapping, the
  list of entries, the entries and their \<^verbatim>\<open>parameters\<close> mappings, is the same object with the
  same content afterwards.
\<close>

theorem input_is_not_mutated:
  "(validate_config h config = Inl e \<longrightarrow> assemble env h config = (Inl e, h)) \<and>
   (load_config env h config = (Inr cfg, h1) \<and> get_checker_class env h config = (r, h') \<longrightarrow>
      (\<exists>added. h' = h1 @ added)) \<and>
   ((\<forall>filename. config \<noteq> PStr filename) \<and> get_checker_class env h config = (r, h') \<longrightarrow>
      (\<exists>added. h' = h @ added) \<and>
      (\<forall>a obj. deref h a = Some obj \<longrightarrow> deref h' a = Some obj))"
proof (intro conjI impI)
  assume "validate_config h config = Inl e"
  then show "assemble env h config = (Inl e, h)" by (simp add: assemble_def)
next
  assume "load_config env h config = (Inr cfg, h1) \<and> get_checker_class env h config = (r, h')"
  then have l: "load_config env h config = (Inr cfg, h1)"
    and g: "get_checker_class env h config = (r, h')" by simp_all
  from g have "assemble env h1 cfg = (r, h')" by (simp add: get_checker_class_loaded [OF l])
  then show "\<exists>added. h' = h1 @ added" by (rule assemble_store)
next
  assume a: "(\<forall>filename. config \<noteq> PStr filename) \<and> get_checker_class env h config = (r, h')"
  then have "assemble env h config = (r, h')"
    using get_checker_class_loaded [OF load_config_structure, of config env h] by simp
  then show g: "\<exists>added. h' = h @ added" by (rule assemble_store)
  then show "\<forall>a obj. deref h a = Some obj \<longrightarrow> deref h' a = Some obj"
    by (auto simp: deref_append)
qed

theorem input_is_not_mutated_witness:
  "\<exists>c h'. get_checker_class tests_env h_default_parameters (PRef 3) = (Inr c, h') \<and>
     take 4 h' = h_default_parameters \<and>
     deref h' 0 = Some (ODict [])"
proof -
  have "case get_checker_class tests_env h_default_parameters (PRef 3) of
      (Inr p, h') \<Rightarrow> True | (Inl e, h') \<Rightarrow> False"
    by code_simp
  from succeeded_cases [OF this] obtain c h' where
    g: "get_checker_class tests_env h_default_parameters (PRef 3) = (Inr c, h')" by blast
  have s: "\<forall>filename. PRef 3 \<noteq> PStr filename" by simp
  have d: "deref h_default_parameters 0 = Some (ODict [])" "length h_default_parameters = 4"
    by code_simp+
  from input_is_not_mutated [where config = "PRef 3" and env = tests_env
      and h = h_default_parameters and r = "Inr c" and h' = h'] s g
  have "(\<exists>added. h' = h_default_parameters @ added)"
    "\<forall>a obj. deref h_default_parameters a = Some obj \<longrightarrow> deref h' a = Some obj"
    by blast+
  with d g show ?thesis by auto
qed


subsection \<open>Dictionaries and the table of the generated class\<close>

lemma dict_get_set:
  "dict_get (dict_set d k v) k' = (if key_eq k k' then Some v else dict_get d k')"
  by (induction d) (auto simp: key_eq_def)

lemma dict_get_None:
  "dict_get d k = None \<longleftrightarrow> norm_key k \<notin> (\<lambda>item. norm_key (fst item)) ` set d"
  by (induction d) (auto simp: key_eq_def split: if_splits)

lemma dict_get_update:
  "dict_wf other \<Longrightarrow>
   dict_get (dict_update d other) k =
     (case dict_get other k of Some v \<Rightarrow> Some v | None \<Rightarrow> dict_get d k)"
proof (induction other arbitrary: d)
  case Nil
  then show ?case by (simp add: dict_update_def)
next
  case (Cons item other)
  obtain k1 v1 where item: "item = (k1, v1)" by (cases item)
  from Cons.prems have wf: "dict_wf other"
    and fresh: "norm_key k1 \<notin> (\<lambda>item. norm_key (fst item)) ` set other"
    by (auto simp: dict_wf_def item)
  have step: "dict_update d ((k1, v1) # other) = dict_update (dict_set d k1 v1) other"
    by (simp add: dict_update_def)
  show ?case
  proof (cases "key_eq k1 k")
    case True
    with fresh have "dict_get other k = None"
      by (simp add: dict_get_None key_eq_def)
    with True show ?thesis
      by (simp add: item step Cons.IH [OF wf] dict_get_set)
  next
    case False
    then show ?thesis
      by (simp add: item step Cons.IH [OF wf] dict_get_set split: option.splits)
  qed
qed

lemma dict_get_merged:
  assumes "dict_wf (defaults check_cls)" and "dict_wf items"
  shows "dict_get (merged_parameters check_cls items) k =
     (case dict_get items k of Some v \<Rightarrow> Some v | None \<Rightarrow> dict_get (defaults check_cls) k)"
  using assms by (simp add: merged_parameters_def dict_get_update split: option.splits)

lemma map_of_fold_add_method:
  "m \<notin> fst ` set bs \<Longrightarrow> map_of (fold add_method bs cp) m = map_of cp m"
proof (induction bs arbitrary: cp)
  case Nil
  then show ?case by simp
next
  case (Cons b bs)
  obtain m' i s where b: "b = (m', i, s)" by (cases b)
  with Cons.prems have "m \<noteq> m'" "m \<notin> fst ` set bs" by auto
  with Cons.IH [of "AList.update m' (Method i) cp"] b show ?case
    by (simp add: update_conv')
qed

lemma class_method_last:
  assumes "built = bs1 @ (m, inst, s) # bs2" and "m \<notin> fst ` set bs2" and "m \<noteq> ''supported_ds''"
  shows "class_method
      \<lparr>cls_name = name,
       cls_dict = AList.update ''supported_ds'' (Attribute common) (fold add_method built [])\<rparr> m
    = Some inst"
proof -
  have "map_of (fold add_method built []) m = Some (Method inst)"
    using assms(2) by (simp add: assms(1) map_of_fold_add_method update_conv')
  with assms(3) show ?thesis
    by (simp add: class_method_def update_conv')
qed

lemma built_entry:
  assumes "list_all2 (entry_built env h h') (before @ e # after) built"
    and "map (\<lambda>b. kwargs (fst (snd b))) built =
      map PRef [length h ..< length h + length (before @ e # after)]"
  obtains bs1 m inst s bs2 where "built = bs1 @ (m, inst, s) # bs2"
    "entry_built env h h' e (m, inst, s)" "kwargs inst = PRef (length h + length before)"
    "list_all2 (entry_built env h h') after bs2"
proof -
  from assms(1) obtain bs1 b bs2 where b: "built = bs1 @ b # bs2"
    and len: "length bs1 = length before"
    and eb: "entry_built env h h' e b" and rest: "list_all2 (entry_built env h h') after bs2"
    by (auto simp: list_all2_append1 list_all2_Cons1)
  obtain m inst s where t: "b = (m, inst, s)" by (cases b)
  have "map (\<lambda>b. kwargs (fst (snd b))) built ! length before =
      map PRef [length h ..< length h + length (before @ e # after)] ! length before"
    by (simp add: assms(2))
  then have "kwargs inst = PRef (length h + length before)"
    using len by (simp add: b t nth_append)
  with b t eb rest that show thesis by blast
qed

lemma method_name_not_attribute:
  "method_name_of h e = Inr m \<Longrightarrow> m \<noteq> ''supported_ds''"
  by (auto simp: method_name_of_def format_method_name_def split: sum.splits pyval.splits)

lemma built_names:
  assumes "list_all2 (entry_built env h h') es bs"
    and "\<forall>e'\<in>set es. method_name_of h e' \<noteq> Inr m"
  shows "m \<notin> fst ` set bs"
  using assms
proof (induction rule: list_all2_induct)
  case Nil
  then show ?case by simp
next
  case (Cons e es b bs)
  from entry_builtD(1) [OF Cons.hyps(1)] Cons.prems Cons.IH show ?case by auto
qed


subsection \<open>The effective parameters\<close>

text \<open>
  Claim C5. When \<^verbatim>\<open>get_checker_class\<close> returns a class, the instance built for an entry \<open>e\<close>
  (the entry after \<open>before\<close> in \<^verbatim>\<open>checks\<close>) is an instance of the class the entry names, and
  its parameters are a dictionary object created in that iteration (its address is not in
  use before the call) that holds the defaults of the class overwritten key by key by the
  items of the entry's \<^verbatim>\<open>parameters\<close>: looking a key up in it gives the entry's value if
  the entry has the key and the default otherwise. A default whose name the entry does not
  supply is what \<^verbatim>\<open>kwargs[name]\<close> gives, and calling the generated method calls
  \<^verbatim>\<open>do_check\<close> of the class on these parameters (when no later entry has the same check id).
  The witness is \<^verbatim>\<open>test_default_parameters\<close>: the generated method returns \<^verbatim>\<open>"hello"\<close>.
\<close>

theorem effective_parameters:
  assumes "load_config env h config = (Inr cfg, h1)"
    and "get_checker_class env h config = (Inr c, h')"
    and "checks_of h1 cfg = Some (before @ e # after)"
  shows "\<exists>check_cls m inst a.
    resolve_check env h1 e = Inr check_cls \<and> method_name_of h1 e = Inr m \<and>
    inst_class inst = check_cls \<and> level inst = entry_level h1 e \<and> kwargs inst = PRef a \<and>
    a = length h1 + length before \<and> deref h1 a = None \<and>
    deref h' a = Some (ODict (merged_parameters check_cls (entry_items h1 e))) \<and>
    (dict_wf (defaults check_cls) \<and> dict_wf (entry_items h1 e) \<longrightarrow>
       (\<forall>k. dict_get (merged_parameters check_cls (entry_items h1 e)) k =
          (case dict_get (entry_items h1 e) k of
             Some v \<Rightarrow> Some v
           | None \<Rightarrow> dict_get (defaults check_cls) k)) \<and>
       (\<forall>k v. dict_get (entry_items h1 e) (PStr k) = None \<and>
          dict_get (defaults check_cls) (PStr k) = Some v \<longrightarrow>
          py_getitem h' (kwargs inst) k = Inr v)) \<and>
    ((\<forall>e'\<in>set after. method_name_of h1 e' \<noteq> Inr m) \<longrightarrow>
       class_method c m = Some inst \<and>
       (\<forall>s ds. call_method c s m ds =
          Some (do_check check_cls s (PRef a) (entry_level h1 e) ds)))"
proof -
  from assms(2) have "assemble env h1 cfg = (Inr c, h')"
    by (simp add: get_checker_class_loaded [OF assms(1)])
  then obtain name es built added common where
    es: "checks_of h1 cfg = Some es"
    and built: "list_all2 (entry_built env h1 h') es built"
    and kw: "map (\<lambda>b. kwargs (fst (snd b))) built = map PRef [length h1 ..< length h1 + length es]"
    and c: "c = \<lparr>cls_name = name,
          cls_dict = AList.update ''supported_ds'' (Attribute common) (fold add_method built [])\<rparr>"
    by (rule assemble_success)
  from es assms(3) have es': "es = before @ e # after" by simp
  from built_entry [OF built [unfolded es'] kw [unfolded es']]
  obtain bs1 m inst s bs2 where b: "built = bs1 @ (m, inst, s) # bs2"
    and eb: "entry_built env h1 h' e (m, inst, s)"
    and a: "kwargs inst = PRef (length h1 + length before)"
    and rest: "list_all2 (entry_built env h1 h') after bs2" .
  let ?a = "length h1 + length before"
  let ?cls = "inst_class inst"
  let ?merged = "merged_parameters ?cls (entry_items h1 e)"
  from entry_builtD [OF eb] a have
    m: "method_name_of h1 e = Inr m" and r: "resolve_check env h1 e = Inr ?cls"
    and lv: "level inst = entry_level h1 e" and d: "deref h' ?a = Some (ODict ?merged)"
    by auto
  have fresh: "deref h1 ?a = None" by (simp add: deref_def)
  have law: "dict_get ?merged k =
      (case dict_get (entry_items h1 e) k of Some v \<Rightarrow> Some v | None \<Rightarrow> dict_get (defaults ?cls) k)"
    if "dict_wf (defaults ?cls) \<and> dict_wf (entry_items h1 e)" for k
    using that by (simp add: dict_get_merged)
  have dflt: "py_getitem h' (kwargs inst) k = Inr v"
    if "dict_wf (defaults ?cls) \<and> dict_wf (entry_items h1 e)"
      and "dict_get (entry_items h1 e) (PStr k) = None \<and> dict_get (defaults ?cls) (PStr k) = Some v"
    for k v
    using law [OF that(1), of "PStr k"] that(2) by (simp add: a py_getitem_def d)
  have meth: "class_method c m = Some inst \<and>
      (\<forall>s ds. call_method c s m ds = Some (do_check ?cls s (PRef ?a) (entry_level h1 e) ds))"
    if "\<forall>e'\<in>set after. method_name_of h1 e' \<noteq> Inr m"
  proof -
    from built_names [OF rest that] have "m \<notin> fst ` set bs2" .
    from class_method_last [OF b this method_name_not_attribute [OF m]]
    have "class_method c m = Some inst" by (simp add: c)
    then show ?thesis
      by (simp add: call_method_def instance_do_check_def a lv)
  qed
  from r m lv a fresh d law dflt meth show ?thesis by blast
qed

theorem effective_parameters_witness:
  "\<exists>c h'. get_checker_class tests_env h_default_parameters (PRef 3) = (Inr c, h') \<and>
     deref h' 4 = Some (ODict [(PStr ''one'', PStr ''hello'')]) \<and>
     call_method c h' ''check_one'' ''dataset'' = Some (Inr (PStr ''hello''))"
proof -
  have l: "load_config tests_env h_default_parameters (PRef 3) = (Inr (PRef 3), h_default_parameters)"
    by (simp add: load_config_def)
  have "case get_checker_class tests_env h_default_parameters (PRef 3) of
      (Inr p, h') \<Rightarrow> True | (Inl e, h') \<Rightarrow> False"
    by code_simp
  from succeeded_cases [OF this] obtain c h' where
    g: "get_checker_class tests_env h_default_parameters (PRef 3) = (Inr c, h')" by blast
  have e: "checks_of h_default_parameters (PRef 3) = Some ([] @ PRef 1 # [])"
    by code_simp
  have r: "resolve_check tests_env h_default_parameters (PRef 1) = Inr DefaultParamsTestCheckClass"
    by (simp add: resolve_check_def py_getitem_def h_default_parameters_def deref_def key_eq_def
          py_split_dot_def tests_env_def tests_module_def)
  have i: "entry_items h_default_parameters (PRef 1) = []"
    "entry_level h_default_parameters (PRef 1) = PNone"
    "method_name_of h_default_parameters (PRef 1) = Inr ''check_one''"
    "length h_default_parameters = 4"
    by code_simp+
  have w: "dict_wf (defaults DefaultParamsTestCheckClass)" "dict_wf []"
    "merged_parameters DefaultParamsTestCheckClass [] = [(PStr ''one'', PStr ''hello'')]"
    "dict_get [] (PStr ''one'') = None"
    "dict_get (defaults DefaultParamsTestCheckClass) (PStr ''one'') = Some (PStr ''hello'')"
    by (simp_all add: dict_wf_def DefaultParamsTestCheckClass_def merged_parameters_def
          dict_update_def key_eq_def)
  from effective_parameters [OF l g e] r i w
  have d: "deref h' 4 = Some (ODict [(PStr ''one'', PStr ''hello'')])"
    and p: "py_getitem h' (PRef 4) ''one'' = Inr (PStr ''hello'')"
    and m: "\<forall>s ds. call_method c s ''check_one'' ds =
          Some (do_check DefaultParamsTestCheckClass s (PRef 4) PNone ds)"
    by auto
  from m p have "call_method c h' ''check_one'' ''dataset'' = Some (Inr (PStr ''hello''))"
    by (simp add: DefaultParamsTestCheckClass_def)
  with g d show ?thesis by blast
qed


subsection \<open>The instance a generated method calls\<close>

text \<open>
  Claim C2, as amended. When \<^verbatim>\<open>get_checker_class\<close> returns a class and no entry after \<open>e\<close> has
  the check id of \<open>e\<close>, the generated method named after \<open>e\<close> holds the instance built in the
  iteration of \<open>e\<close> (the instance of the class \<open>e\<close> names, with the level of \<open>e\<close>, whose
  parameters are the dictionary created in that iteration), also after the later entries
  have been processed, and calling the method calls \<^verbatim>\<open>do_check\<close> of that instance.
\<close>

theorem method_delegates_to_own_instance:
  assumes "load_config env h config = (Inr cfg, h1)"
    and "get_checker_class env h config = (Inr c, h')"
    and "checks_of h1 cfg = Some (before @ e # after)"
    and "\<forall>e'\<in>set after. method_name_of h1 e' \<noteq> method_name_of h1 e"
  shows "\<exists>m inst.
    method_name_of h1 e = Inr m \<and>
    entry_built env h1 h' e (m, inst, py_set (supported_ds (inst_class inst))) \<and>
    kwargs inst = PRef (length h1 + length before) \<and>
    class_method c m = Some inst \<and>
    (\<forall>s ds. call_method c s m ds = Some (instance_do_check inst s ds))"
proof -
  from assms(2) have "assemble env h1 cfg = (Inr c, h')"
    by (simp add: get_checker_class_loaded [OF assms(1)])
  then obtain name es built added common where
    es: "checks_of h1 cfg = Some es"
    and built: "list_all2 (entry_built env h1 h') es built"
    and kw: "map (\<lambda>b. kwargs (fst (snd b))) built = map PRef [length h1 ..< length h1 + length es]"
    and c: "c = \<lparr>cls_name = name,
          cls_dict = AList.update ''supported_ds'' (Attribute common) (fold add_method built [])\<rparr>"
    by (rule assemble_success)
  from es assms(3) have es': "es = before @ e # after" by simp
  from built_entry [OF built [unfolded es'] kw [unfolded es']]
  obtain bs1 m inst s bs2 where b: "built = bs1 @ (m, inst, s) # bs2"
    and eb: "entry_built env h1 h' e (m, inst, s)"
    and a: "kwargs inst = PRef (length h1 + length before)"
    and rest: "list_all2 (entry_built env h1 h') after bs2" .
  from entry_builtD(1,4) [OF eb] have m: "method_name_of h1 e = Inr m"
    and s: "s = py_set (supported_ds (inst_class inst))" by simp_all
  from assms(4) m have "\<forall>e'\<in>set after. method_name_of h1 e' \<noteq> Inr m" by simp
  from built_names [OF rest this] have "m \<notin> fst ` set bs2" .
  from class_method_last [OF b this method_name_not_attribute [OF m]]
  have cm: "class_method c m = Some inst" by (simp add: c)
  then have "\<forall>s ds. call_method c s m ds = Some (instance_do_check inst s ds)"
    by (simp add: call_method_def)
  with m eb s a cm show ?thesis by blast
qed

theorem method_delegates_to_own_instance_witness:
  "\<exists>c h'. get_checker_class tests_env h_two_checks (PRef 5) = (Inr c, h') \<and>
     map_option kwargs (class_method c ''check_one'') = Some (PRef 6) \<and>
     map_option (\<lambda>inst. supported_ds (inst_class inst)) (class_method c ''check_one'') =
       Some [1, 2, 3]"
proof -
  have l: "load_config tests_env h_two_checks (PRef 5) = (Inr (PRef 5), h_two_checks)"
    by (simp add: load_config_def)
  have "case get_checker_class tests_env h_two_checks (PRef 5) of
      (Inr p, h') \<Rightarrow> True | (Inl e, h') \<Rightarrow> False"
    by code_simp
  from succeeded_cases [OF this] obtain c h' where
    g: "get_checker_class tests_env h_two_checks (PRef 5) = (Inr c, h')" by blast
  have e: "checks_of h_two_checks (PRef 5) = Some ([] @ PRef 1 # [PRef 3])"
    by code_simp
  have n: "\<forall>e'\<in>set [PRef 3]. method_name_of h_two_checks e' \<noteq> method_name_of h_two_checks (PRef 1)"
    by code_simp
  have i: "method_name_of h_two_checks (PRef 1) = Inr ''check_one''"
    "length h_two_checks = 6"
    "map_sum id supported_ds (resolve_check tests_env h_two_checks (PRef 1)) = Inr [1, 2, 3]"
    by code_simp+
  from method_delegates_to_own_instance [OF l g e n] i(1,2) obtain inst where
    b: "entry_built tests_env h_two_checks h' (PRef 1)
          (''check_one'', inst, py_set (supported_ds (inst_class inst)))"
    and k: "kwargs inst = PRef 6" and m: "class_method c ''check_one'' = Some inst"
    by auto
  from entry_builtD(2) [OF b] i(3) have "supported_ds (inst_class inst) = [1, 2, 3]"
    by simp
  with g k m show ?thesis by simp
qed

text \<open>
  Claim C2 as stated fails for an entry whose check id a later entry repeats: in the
  configuration of \<^verbatim>\<open>test_supported_ds\<close> both entries have the check id \<^verbatim>\<open>"one"\<close>, and the
  method \<^verbatim>\<open>check_one\<close> of the generated class holds the instance of the second entry (class
  \<^verbatim>\<open>SupportDsTestCheckClass2\<close>, the second dictionary created), not the instance built for
  the first entry, which names \<^verbatim>\<open>SupportDsTestCheckClass1\<close>.
\<close>

theorem duplicate_check_id_counterexample:
  "method_name_of h_supported_ds (PRef 1) = Inr ''check_one'' \<and>
   map_sum id supported_ds (resolve_check tests_env h_supported_ds (PRef 1)) = Inr [1, 2, 3] \<and>
   (case get_checker_class tests_env h_supported_ds (PRef 5) of
      (Inr c, h') \<Rightarrow>
        map_option (\<lambda>inst. (supported_ds (inst_class inst), kwargs inst))
          (class_method c ''check_one'') = Some ([2, 3, 4], PRef 7)
    | (Inl e, h') \<Rightarrow> False)"
  by code_simp


subsection \<open>Assembling the same configuration again\<close>

lemma isinstance_append:
  "py_isinstance h v t = Inr b \<Longrightarrow> py_isinstance (h @ ext) v t = Inr b"
  by (cases v)
     (auto simp: py_isinstance_def py_class_def deref_append
        split: sum.splits option.splits pyobj.splits)

lemma validate_fields_ok:
  "validate_fields h fs d True = Inr () \<longleftrightarrow>
     (\<forall>(k, t)\<in>set fs. \<exists>v. field h d k = Some v \<and> py_isinstance h v t = Inr True)"
proof (induction fs)
  case Nil
  then show ?case by simp
next
  case (Cons f fs)
  obtain k t where f: "f = (k, t)" by (cases f)
  show ?case
    using Cons.IH
    by (simp add: f validate_fields_ok_Cons vf_required_ok del: validate_fields.simps(2))
qed

lemma validate_parameters_ok:
  "validate_parameters h check_cls params = Inr () \<longleftrightarrow>
     (case required_parameters check_cls of
        None \<Rightarrow> True
      | Some required \<Rightarrow> validate_fields h required params True = Inr ())"
  by (auto simp: validate_parameters_def split: option.splits sum.splits)

lemma field_dict: "deref h a = Some (ODict d) \<Longrightarrow> field h (PRef a) k = dict_get d (PStr k)"
  by (simp add: field_def)

lemma validate_parameters_again:
  assumes "validate_parameters h check_cls (PRef a) = Inr ()"
    and "deref h a = Some (ODict d)" and "deref (h @ ext) a' = Some (ODict d)"
  shows "validate_parameters (h @ ext) check_cls (PRef a') = Inr ()"
proof (cases "required_parameters check_cls")
  case None
  then show ?thesis by (simp add: validate_parameters_ok)
next
  case (Some required)
  with assms(1) have
    "\<forall>(k, t)\<in>set required. \<exists>v. dict_get d (PStr k) = Some v \<and> py_isinstance h v t = Inr True"
    by (simp add: validate_parameters_ok validate_fields_ok field_dict [OF assms(2)])
  then have
    "\<forall>(k, t)\<in>set required. \<exists>v. dict_get d (PStr k) = Some v \<and>
       py_isinstance (h @ ext) v t = Inr True"
    by (fastforce dest: isinstance_append)
  with Some show ?thesis
    by (simp add: validate_parameters_ok validate_fields_ok field_dict [OF assms(3)])
qed

lemma build_checks_again:
  assumes "list_all (entry_ok h0) es"
    and "build_checks env es (h0 @ ext) cp sets = (Inr (cp', sets'), h')"
  shows "\<exists>cp2' sets2' h2'. build_checks env es (h' @ ext2) cp2 sets2 = (Inr (cp2', sets2'), h2')"
  using assms
proof (induction es arbitrary: ext cp sets ext2 cp2 sets2)
  case Nil
  then show ?case by simp
next
  case (Cons e es)
  from Cons.prems have e: "entry_ok h0 e" and es: "list_all (entry_ok h0) es" by simp_all
  obtain r1 s1 where b: "build_check env (h0 @ ext) e = (r1, s1)"
    by (cases "build_check env (h0 @ ext) e")
  show ?case
  proof (cases r1)
    case (Inl err)
    with Cons.prems b show ?thesis by simp
  next
    case (Inr t)
    obtain m i s where t: "t = (m, i, s)" by (cases t)
    let ?cls = "inst_class (fst (snd t))"
    let ?obj = "ODict (merged_parameters ?cls (entry_items h0 e))"
    from build_check_valid_success [OF e b [unfolded Inr]]
    have s1: "s1 = h0 @ ext @ [?obj]"
      and built: "entry_built env h0 (s1 @ []) e t"
      and v: "validate_parameters s1 ?cls (PRef (length (h0 @ ext))) = Inr ()"
      by blast+
    from Cons.prems b Inr t s1
    have rest: "build_checks env es (h0 @ (ext @ [?obj])) (AList.update m (Method i) cp)
        (sets @ [s]) = (Inr (cp', sets'), h')" by simp
    then obtain added where h': "h' = s1 @ added"
      using build_checks_store s1 by fastforce
    let ?s = "h' @ ext2"
    have s: "?s = h0 @ (ext @ [?obj] @ added @ ext2)" by (simp add: h' s1)
    have e2: "entry_ok ?s e" unfolding s using e by (rule entry_ok_append)
    have m2: "method_name_of ?s e = Inr (fst t)"
      unfolding s using entry_builtD(1) [OF built] by (simp add: method_name_of_append [OF e])
    have r2: "resolve_check env ?s e = Inr ?cls"
      unfolding s using entry_builtD(2) [OF built] by (simp add: resolve_check_append [OF e])
    have i2: "entry_items ?s e = entry_items h0 e"
      unfolding s using e by (rule entry_items_append)
    have "validate_parameters (s1 @ (added @ ext2 @ [?obj])) ?cls (PRef (length ?s)) = Inr ()"
    proof (rule validate_parameters_again [OF v])
      show "deref s1 (length (h0 @ ext)) = Some ?obj"
        by (simp add: s1 deref_def nth_append)
      show "deref (s1 @ added @ ext2 @ [?obj]) (length ?s) = Some ?obj"
        by (simp add: h' deref_def nth_append)
    qed
    then have v2: "validate_parameters (?s @ [?obj]) ?cls (PRef (length ?s)) = Inr ()"
      by (simp add: h')
    from build_check_valid [OF e2 m2 r2] v2 i2
    obtain t2 where b2: "build_check env ?s e = (Inr t2, h' @ (ext2 @ [?obj]))"
      by simp
    obtain m2 i2 s2 where t2: "t2 = (m2, i2, s2)" by (cases t2)
    from Cons.IH [OF es rest, of "ext2 @ [?obj]" "AList.update m2 (Method i2) cp2" "sets2 @ [s2]"]
    show ?thesis by (simp add: b2 t2)
  qed
qed


lemma checks_of_append:
  "checks_of h config = Some es \<Longrightarrow> checks_of (h @ ext) config = Some es"
proof -
  assume a: "checks_of h config = Some es"
  then obtain b where f: "field h config ''checks'' = Some (PRef b)"
    and d: "deref h b = Some (OList es)"
    by (auto simp: checks_of_def split: option.splits pyval.splits pyobj.splits)
  from f have "is_mapping h config" by (rule vf_field_mapping)
  with f d show ?thesis
    by (simp add: checks_of_def field_append deref_append)
qed

lemma entries_ok_append: "list_all (entry_ok h) es \<Longrightarrow> list_all (entry_ok (h @ ext)) es"
  by (induction es) (simp_all add: entry_ok_append)

lemma built_method_names:
  "list_all2 (entry_built env h h') es built \<Longrightarrow>
   map (\<lambda>b. Inr (fst b)) built = map (method_name_of h) es"
proof (induction rule: list_all2_induct)
  case Nil
  then show ?case by simp
next
  case (Cons e es b built)
  from entry_builtD(1) [OF Cons.hyps(1)] Cons.IH show ?case by simp
qed

lemma built_resolved:
  "list_all2 (entry_built env h h') es built \<Longrightarrow>
   map (\<lambda>b. Inr (inst_class (fst (snd b)))) built = map (resolve_check env h) es"
proof (induction rule: list_all2_induct)
  case Nil
  then show ?case by simp
next
  case (Cons e es b built)
  from entry_builtD(2) [OF Cons.hyps(1)] Cons.IH show ?case by simp
qed

lemma built_names_not_attribute:
  "list_all2 (entry_built env h h') es built \<Longrightarrow> ''supported_ds'' \<notin> fst ` set built"
proof (induction rule: list_all2_induct)
  case Nil
  then show ?case by simp
next
  case (Cons e es b built)
  from method_name_not_attribute [OF entry_builtD(1) [OF Cons.hyps(1)]] Cons.IH show ?case
    by auto
qed

lemma method_names_built:
  assumes "''supported_ds'' \<notin> fst ` set built"
  shows "method_names
      \<lparr>cls_name = name,
       cls_dict = AList.update ''supported_ds'' (Attribute common) (fold add_method built [])\<rparr>
    = fst ` set built"
proof (intro set_eqI iffI)
  fix m
  let ?c = "\<lparr>cls_name = name,
      cls_dict = AList.update ''supported_ds'' (Attribute common) (fold add_method built [])\<rparr>"
  {
    assume "m \<in> method_names ?c"
    then have c: "class_method ?c m \<noteq> None" by (simp add: method_names_def)
    show "m \<in> fst ` set built"
    proof (rule ccontr)
      assume "m \<notin> fst ` set built"
      then have "map_of (fold add_method built []) m = None"
        by (simp add: map_of_fold_add_method)
      then have "class_method ?c m = None"
        by (simp add: class_method_def update_conv')
      with c show False by simp
    qed
  next
    assume "m \<in> fst ` set built"
    then have "\<exists>b\<in>set built. fst b = m" by auto
    from split_list_last_prop [OF this] obtain bs1 b bs2 where
      b: "built = bs1 @ b # bs2" "fst b = m" "\<forall>z\<in>set bs2. fst z \<noteq> m" by blast
    obtain inst s where t: "b = (m, inst, s)" using b(2) by (cases b) auto
    from b(3) have "m \<notin> fst ` set bs2" by auto
    moreover from assms b t have "m \<noteq> ''supported_ds''" by auto
    ultimately have "class_method ?c m = Some inst"
      using class_method_last [of built bs1 m inst s bs2] b(1) t by simp
    then show "m \<in> method_names ?c" by (simp add: method_names_def)
  }
qed

text \<open>
  Claim C8. When \<^verbatim>\<open>get_checker_class\<close> has returned a class for a configuration given as a
  structure, a second call on the same configuration, in the store the first call has left,
  returns a class as well, with the same name, the same \<^verbatim>\<open>supported_ds\<close> as a set and the same
  set of method names. In the witness the two classes are different objects: their methods
  hold instances with different parameter dictionaries.
\<close>

theorem assembly_is_repeatable:
  assumes "\<forall>filename. config \<noteq> PStr filename"
    and "get_checker_class env h config = (Inr c1, h1)"
  shows "\<exists>c2 h2 ds1 ds2.
    get_checker_class env h1 config = (Inr c2, h2) \<and>
    cls_name c2 = cls_name c1 \<and>
    class_supported_ds c1 = Some ds1 \<and> class_supported_ds c2 = Some ds2 \<and> set ds2 = set ds1 \<and>
    method_names c2 = method_names c1"
proof -
  have load: "load_config env s config = (Inr config, s)" for s
    using assms(1) by (rule load_config_structure)
  from assms(2) have first: "assemble env h config = (Inr c1, h1)"
    by (simp add: get_checker_class_loaded [OF load])
  then obtain name es built1 added common1 where
    name: "field h config ''suite_name'' = Some (PStr name)"
    and es: "checks_of h config = Some es" "es \<noteq> []" "list_all (entry_ok h) es"
    and built1: "list_all2 (entry_built env h h1) es built1"
    and h1: "h1 = h @ added"
    and i1: "set_intersection (map (\<lambda>b. snd (snd b)) built1) = Inr common1"
    and c1: "c1 = \<lparr>cls_name = name,
          cls_dict = AList.update ''supported_ds'' (Attribute common1) (fold add_method built1 [])\<rparr>"
    and nul: "CHR 0x00 \<notin> set name"
    by (rule assemble_success)
  from first es have run1: "\<exists>cp sets. build_checks env es (h @ []) [] [] = (Inr (cp, sets), h1)"
    using assemble_valid [OF name es, of env]
    by (auto simp: make_type_text split: prod.splits sum.splits)
  then obtain cp1 sets1 where "build_checks env es (h @ []) [] [] = (Inr (cp1, sets1), h1)"
    by blast
  from build_checks_again [OF es(3) this, of "[]" "[]" "[]"]
  obtain cp2 sets2 h2 where run2: "build_checks env es h1 [] [] = (Inr (cp2, sets2), h2)"
    by auto
  have name2: "field h1 config ''suite_name'' = Some (PStr name)"
    using name vf_field_mapping [OF name] by (simp add: h1 field_append)
  have es2: "checks_of h1 config = Some es" "list_all (entry_ok h1) es"
    using es by (simp_all add: h1 checks_of_append entries_ok_append)
  from build_checks_length [OF run2] es(2) have "sets2 \<noteq> []" by auto
  then obtain common2 where "set_intersection sets2 = Inr common2"
    using set_intersection_nonempty by blast
  with run2 nul assemble_valid [OF name2 es2(1) es(2) es2(2), of env]
  obtain c2 where second: "assemble env h1 config = (Inr c2, h2)"
    by (simp add: make_type_text)
  then obtain name' es' built2 common2' where
    name': "field h1 config ''suite_name'' = Some (PStr name')"
    and es': "checks_of h1 config = Some es'"
    and built2: "list_all2 (entry_built env h1 h2) es' built2"
    and i2: "set_intersection (map (\<lambda>b. snd (snd b)) built2) = Inr common2'"
    and c2: "c2 = \<lparr>cls_name = name',
          cls_dict = AList.update ''supported_ds'' (Attribute common2') (fold add_method built2 [])\<rparr>"
    by (rule assemble_success)
  from name' name2 es' es2(1) have same: "name' = name" "es' = es" by simp_all
  have "map (method_name_of h1) es = map (method_name_of h) es"
    using es(3) by (induction es) (simp_all add: h1 method_name_of_append)
  with built_method_names [OF built1] built_method_names [OF built2 [unfolded same]]
  have "map (\<lambda>b. Inr (fst b) :: py_error + string) built2 = map (\<lambda>b. Inr (fst b)) built1"
    by simp
  then have "map (projr \<circ> (\<lambda>b. Inr (fst b) :: py_error + string)) built2 =
      map (projr \<circ> (\<lambda>b. Inr (fst b) :: py_error + string)) built1"
    by (metis map_map)
  then have names: "map fst built2 = map fst built1" by (simp add: comp_def)
  have "map (resolve_check env h1) es = map (resolve_check env h) es"
    using es(3) by (induction es) (simp_all add: h1 resolve_check_append)
  with built_resolved [OF built1] built_resolved [OF built2 [unfolded same]]
  have "map (\<lambda>b. Inr (inst_class (fst (snd b)))) built2 =
      (map (\<lambda>b. Inr (inst_class (fst (snd b)))) built1 :: (py_error + ('a, 'b, 'c) check_cls) list)"
    by simp
  then have "map (projr \<circ> (\<lambda>b. Inr (inst_class (fst (snd b))) :: py_error + ('a, 'b, 'c) check_cls))
        built2 =
      map (projr \<circ> (\<lambda>b. Inr (inst_class (fst (snd b))) :: py_error + ('a, 'b, 'c) check_cls))
        built1"
    by (metis map_map)
  then have "map (\<lambda>b. inst_class (fst (snd b))) built2 = map (\<lambda>b. inst_class (fst (snd b))) built1"
    by (simp add: comp_def)
  with built_sets [OF built1] built_sets [OF built2]
  have "map (\<lambda>b. snd (snd b)) built2 = map (\<lambda>b. snd (snd b)) built1" by simp
  with i1 i2 have common: "common2' = common1" by simp
  have ds: "class_supported_ds c1 = Some common1" "class_supported_ds c2 = Some common1"
    by (simp_all add: c1 c2 common class_supported_ds_def update_conv')
  have "method_names c2 = fst ` set built2"
    unfolding c2 using built_names_not_attribute [OF built2] by (rule method_names_built)
  also have "\<dots> = set (map fst built2)" by simp
  also have "\<dots> = fst ` set built1" by (simp add: names)
  also have "\<dots> = method_names c1"
    unfolding c1 using built_names_not_attribute [OF built1] by (rule method_names_built [symmetric])
  finally have mn: "method_names c2 = method_names c1" .
  have "get_checker_class env h1 config = (Inr c2, h2)"
    using second by (simp add: get_checker_class_loaded [OF load])
  moreover have "cls_name c2 = cls_name c1" by (simp add: c1 c2 same)
  ultimately show ?thesis using ds mn by blast
qed


theorem assembly_is_repeatable_witness:
  "\<exists>c1 h1 c2 h2.
     get_checker_class tests_env h_two_checks (PRef 5) = (Inr c1, h1) \<and>
     get_checker_class tests_env h1 (PRef 5) = (Inr c2, h2) \<and>
     cls_name c2 = cls_name c1 \<and> method_names c2 = method_names c1 \<and>
     map_option set (class_supported_ds c2) = map_option set (class_supported_ds c1) \<and>
     map_option kwargs (class_method c1 ''check_one'') = Some (PRef 6) \<and>
     map_option kwargs (class_method c2 ''check_one'') = Some (PRef 8)"
proof -
  have s: "\<forall>filename. PRef 5 \<noteq> PStr filename" by simp
  have "case get_checker_class tests_env h_two_checks (PRef 5) of
      (Inr p, h') \<Rightarrow> True | (Inl e, h') \<Rightarrow> False"
    by code_simp
  from succeeded_cases [OF this] obtain c1 h1 where
    g: "get_checker_class tests_env h_two_checks (PRef 5) = (Inr c1, h1)" by blast
  from assembly_is_repeatable [OF s g] obtain c2 h2 where
    r: "get_checker_class tests_env h1 (PRef 5) = (Inr c2, h2)"
      "cls_name c2 = cls_name c1" "method_names c2 = method_names c1"
      "map_option set (class_supported_ds c2) = map_option set (class_supported_ds c1)"
    by auto
  have "case get_checker_class tests_env h_two_checks (PRef 5) of
      (Inr c1, h1) \<Rightarrow>
        map_option kwargs (class_method c1 ''check_one'') = Some (PRef 6) \<and>
        (case get_checker_class tests_env h1 (PRef 5) of
           (Inr c2, h2) \<Rightarrow> map_option kwargs (class_method c2 ''check_one'') = Some (PRef 8)
         | (Inl e, h2) \<Rightarrow> False)
    | (Inl e, h1) \<Rightarrow> False"
    by code_simp
  with g r(1) have "map_option kwargs (class_method c1 ''check_one'') = Some (PRef 6)"
    "map_option kwargs (class_method c2 ''check_one'') = Some (PRef 8)"
    by simp_all
  with g r show ?thesis by blast
qed


end
